theory Spec2Isabelle
  imports Main "HOL-Library.Word"
begin

unbundle bit_operations_syntax

section \<open>Data model of the wmtouch-raw plugin\<close>

text \<open>
  The plugin is built for 64-bit Windows: \<open>int\<close>, \<open>unsigned int\<close>, \<open>long\<close>,
  \<open>LONG\<close> and \<open>DWORD\<close> are 32 bits wide, \<open>size_t\<close>, \<open>WPARAM\<close>, \<open>LPARAM\<close> and
  \<open>LRESULT\<close> are 64 bits wide. A signed C integer is a word that is read through
  \<open>sint\<close>; an unsigned one is read through \<open>unat\<close>, and \<open>\<le>\<close> on words is the
  unsigned order.
\<close>

type_synonym dword = "32 word"
type_synonym c_int = "32 word"
type_synonym c_long = "32 word"
type_synonym size_t = "64 word"

text \<open>
  Modelled from the spec: the per-contact record \<open>TOUCHINPUT\<close> and its activity flag
  bits \<open>TOUCHEVENTF_MOVE\<close>, \<open>TOUCHEVENTF_DOWN\<close>, \<open>TOUCHEVENTF_UP\<close> are declared in
  the platform header, which src/ does not hold. The record carries a position, an
  identifier, the activity flag set and a millisecond timestamp; the flag values are
  the platform's.
\<close>

record TOUCHINPUT =
  ti_x :: c_long
  ti_y :: c_long
  dwID :: dword
  dwFlags :: dword
  dwTime :: dword

definition TOUCHEVENTF_MOVE :: dword where
  "TOUCHEVENTF_MOVE = 0x0001"

definition TOUCHEVENTF_DOWN :: dword where
  "TOUCHEVENTF_DOWN = 0x0002"

definition TOUCHEVENTF_UP :: dword where
  "TOUCHEVENTF_UP = 0x0004"

text \<open>What \<open>memset(.., 0, ..)\<close> leaves in one record.\<close>

definition zero_touch :: TOUCHINPUT where
  "zero_touch = \<lparr>ti_x = 0, ti_y = 0, dwID = 0, dwFlags = 0, dwTime = 0\<rparr>"

text \<open>
  Modelled from the spec: \<open>struct ts_sample\<close> and \<open>struct ts_sample_mt\<close> are declared
  in the library's public header, which src/ does not hold. A sample has integer
  \<open>x\<close>, \<open>y\<close>, a pressure and a \<open>struct timeval\<close> of two \<open>long\<close> fields; the
  multi-point sample also has a slot and a tracking identifier.
\<close>

record ts_sample =
  samp_x :: c_int
  samp_y :: c_int
  samp_pressure :: dword
  tv_sec :: c_long
  tv_usec :: c_long

record ts_sample_mt =
  mt_x :: c_int
  mt_y :: c_int
  mt_pressure :: dword
  mt_slot :: c_int
  mt_tracking_id :: c_int
  mt_tv_sec :: c_long
  mt_tv_usec :: c_long

text \<open>
  \<open>struct tslib_input\<close>. The buffer pointer \<open>buf\<close> is \<open>None\<close> when it is \<open>NULL\<close>
  and otherwise holds the records of the allocation it points to. A window
  procedure is either the plugin's own \<open>tslibWndProc\<close> or one of the host's. The embedded \<open>module\<close> header only points at the
  constant operations table and is left out.
\<close>

datatype WNDPROC = Tslib_WndProc | Host_WndProc nat

record tslib_input =
  current_x :: c_int
  current_y :: c_int
  current_p :: c_int
  grab_events :: "8 word"
  prevWndProc :: WNDPROC
  buf :: "TOUCHINPUT list option"
  slot :: c_int
  max_slots :: c_int
  nr :: c_int
  pen_down :: c_int
  last_fd :: c_int
  mt :: "8 word"
  no_pressure :: "8 word"
  type_a :: "8 word"
  last_pressure :: "c_int list option"
  special_device :: "16 word"

definition GRAB_EVENTS_WANTED :: "8 word" where
  "GRAB_EVENTS_WANTED = 1"

text \<open>
  A read of memory that the program does not own ends the program; the model
  returns the fault instead of a result.
\<close>

datatype fault = NullPointer | OutOfBounds

section \<open>The sample normalizer\<close>

text \<open>
  The test of lines 66-67 and 86-87:
  \<open>dwFlags & TOUCHEVENTF_DOWN || dwFlags & TOUCHEVENTF_MOVE\<close>.
\<close>

definition down_or_move :: "TOUCHINPUT \<Rightarrow> bool" where
  "down_or_move r \<longleftrightarrow>
     dwFlags r AND TOUCHEVENTF_DOWN \<noteq> 0 \<or> dwFlags r AND TOUCHEVENTF_MOVE \<noteq> 0"

text \<open>
  \<open>ts_mswin_input_read\<close>. The argument \<open>samp0\<close> is the caller's \<open>samp[0]\<close>; the
  result is that sample after the call and the returned count. \<open>dwTime * 1000\<close> is
  computed in 32 unsigned bits and \<open>dwTime / 1000\<close> is the unsigned quotient.
\<close>

definition ts_mswin_input_read ::
  "tslib_input \<Rightarrow> ts_sample \<Rightarrow> c_int \<Rightarrow> fault + (ts_sample \<times> int)" where
  "ts_mswin_input_read i samp0 nr_arg =
     (if max_slots i = 0 then Inr (samp0, 0)
      else case buf i of
        None \<Rightarrow> Inl NullPointer
      | Some rs \<Rightarrow>
          (case rs of
             [] \<Rightarrow> Inl OutOfBounds
           | r # _ \<Rightarrow>
               if down_or_move r
               then Inr (samp0\<lparr>samp_x := ti_x r, samp_y := ti_y r,
                               tv_usec := dwTime r * 1000,
                               tv_sec := dwTime r div 1000\<rparr>, 1)
               else Inr (samp0, 1)))"

text \<open>
  The loop of \<open>ts_mswin_input_read_mt\<close>, lines 85-95. \<open>samp\<close> is the caller's array
  \<open>samp[0]\<close>, \<open>max_arg\<close> the requested slot count, \<open>j\<close> and \<open>k\<close> the two cursors;
  both stay below \<open>max_arg\<close>, so they never wrap and are natural numbers here.
\<close>

function read_mt_loop ::
  "tslib_input \<Rightarrow> ts_sample_mt list \<Rightarrow> c_int \<Rightarrow> nat \<Rightarrow> nat \<Rightarrow>
     fault + (ts_sample_mt list \<times> nat)" where
  "read_mt_loop i samp max_arg j k =
     (if int j < sint max_arg \<and> int j < sint (max_slots i) then
        (case buf i of
           None \<Rightarrow> Inl NullPointer
         | Some rs \<Rightarrow>
             if length rs \<le> j then Inl OutOfBounds
             else if down_or_move (rs ! j) then
               (if length samp \<le> k then Inl OutOfBounds
                else read_mt_loop i
                       (samp[k := (samp ! k)\<lparr>mt_x := ti_x (rs ! j), mt_y := ti_y (rs ! j),
                                              mt_tv_usec := dwTime (rs ! j) * 1000,
                                              mt_tv_sec := dwTime (rs ! j) div 1000\<rparr>])
                       max_arg (Suc j) (Suc k))
             else read_mt_loop i samp max_arg (Suc j) k)
      else Inr (samp, k))"
  by pat_completeness auto
termination
  by (relation "measure (\<lambda>(i, samp, max_arg, j, k). nat (sint max_arg) - j)") auto

declare read_mt_loop.simps [simp del]

definition ts_mswin_input_read_mt ::
  "tslib_input \<Rightarrow> ts_sample_mt list \<Rightarrow> c_int \<Rightarrow> c_int \<Rightarrow>
     fault + (ts_sample_mt list \<times> nat)" where
  "ts_mswin_input_read_mt i samp max_arg nr_arg = read_mt_loop i samp max_arg 0 0"

section \<open>The message interceptor\<close>

text \<open>
  Modelled from the spec: the message number \<open>WM_TOUCH\<close> of the batch touch
  notification is declared in the platform header, which src/ does not hold; the value
  is the platform's.
\<close>

definition WM_TOUCH :: dword where
  "WM_TOUCH = 0x0240"

record wndmsg =
  hwnd :: "64 word"
  uMsg :: dword
  wParam :: "64 word"
  lParam :: "64 word"

text \<open>
  What the platform answers while one message is handled: whether \<open>malloc\<close> on line
  157 returns memory, the result of \<open>GetTouchInputInfo\<close> and the records it stores,
  and the result of the previous window procedure when \<open>CallWindowProc\<close> runs it.
\<close>

record platform =
  malloc_ok :: bool
  touch_ok :: bool
  touch_recs :: "TOUCHINPUT list"
  prev_result :: "64 word"

text \<open>The platform call by which the handler ends: lines 179 and 183.\<close>

datatype effect =
  CloseTouchInputHandle "64 word"
| CallWindowProc WNDPROC "64 word" dword "64 word" "64 word"

text \<open>
  \<open>memset(p, 0, len)\<close> on the record array \<open>p\<close>, with \<open>len\<close> counted in records.
  A length of zero touches no memory.
\<close>

definition memset_zero ::
  "TOUCHINPUT list option \<Rightarrow> nat \<Rightarrow> fault + TOUCHINPUT list option" where
  "memset_zero p len =
     (case p of
        None \<Rightarrow> if len = 0 then Inr None else Inl NullPointer
      | Some rs \<Rightarrow>
          if len \<le> length rs then Inr (Some (replicate len zero_touch @ drop len rs))
          else Inl OutOfBounds)"

text \<open>
  \<open>GetTouchInputInfo(h, cInputs, pInputs, size)\<close>: the platform stores at most
  \<open>cInputs\<close> records at the start of \<open>pInputs\<close> and answers whether it succeeded.
\<close>

definition GetTouchInputInfo ::
  "platform \<Rightarrow> dword \<Rightarrow> TOUCHINPUT list option \<Rightarrow> fault + (bool \<times> TOUCHINPUT list option)" where
  "GetTouchInputInfo env cInputs pInputs =
     (let w = take (unat cInputs) (touch_recs env) in
      case pInputs of
        None \<Rightarrow> if w = [] then Inr (touch_ok env, None) else Inl NullPointer
      | Some rs \<Rightarrow>
          if length w \<le> length rs then Inr (touch_ok env, Some (w @ drop (length w) rs))
          else Inl OutOfBounds)"

text \<open>Line 183: the message goes to the previous handler as it came.\<close>

definition forward ::
  "tslib_input \<Rightarrow> platform \<Rightarrow> wndmsg \<Rightarrow> fault + (tslib_input \<times> effect \<times> 64 word)" where
  "forward i env m =
     Inr (i, CallWindowProc (prevWndProc i) (hwnd m) (uMsg m) (wParam m) (lParam m),
          prev_result env)"

text \<open>
  \<open>tslibWndProc\<close>, with the adapter state that the window's user data points to as
  an argument. \<open>ni > i->max_slots\<close> compares an \<open>unsigned int\<close> with an \<open>int\<close>, so
  it is the unsigned order. On line 156 the old buffer is freed before \<open>malloc\<close> is
  called, and on failure line 160 leaves with \<open>buf\<close> holding \<open>NULL\<close>. The length of
  line 165 is the \<open>int\<close> capacity converted to \<open>size_t\<close>. The memory that \<open>malloc\<close>
  returns is written by line 165 before anything reads it. \<open>done\<close> is 0 throughout,
  so the test of line 148 always passes.
\<close>

definition tslibWndProc ::
  "tslib_input \<Rightarrow> platform \<Rightarrow> wndmsg \<Rightarrow> fault + (tslib_input \<times> effect \<times> 64 word)" where
  "tslibWndProc i env m =
     (if uMsg m = WM_TOUCH then
        (let ni = (ucast (wParam m) :: dword) in
         if max_slots i < ni \<and> \<not> malloc_ok env then forward (i\<lparr>buf := None\<rparr>) env m
         else
           (let i1 = (if max_slots i < ni
                      then i\<lparr>buf := Some (replicate (unat ni) zero_touch), max_slots := ni\<rparr>
                      else i)
            in case memset_zero (buf i1) (unat (scast (max_slots i1) :: size_t)) of
                 Inl f \<Rightarrow> Inl f
               | Inr p \<Rightarrow>
                   (case GetTouchInputInfo env ni p of
                      Inl f \<Rightarrow> Inl f
                    | Inr (handled, p') \<Rightarrow>
                        if handled
                        then Inr (i1\<lparr>buf := p'\<rparr>, CloseTouchInputHandle (lParam m), 0)
                        else forward (i1\<lparr>buf := p'\<rparr>) env m)))
      else forward i env m)"

text \<open>
  A sequence of messages delivered one after the other; a fault ends the run. The
  result lists, for each message, the state after it and the platform call it ended
  with.
\<close>

fun deliver ::
  "tslib_input \<Rightarrow> (platform \<times> wndmsg) list \<Rightarrow> fault + (tslib_input \<times> effect) list" where
  "deliver i [] = Inr []"
| "deliver i ((env, m) # ms) =
     (case tslibWndProc i env m of
        Inl f \<Rightarrow> Inl f
      | Inr (i', e, r) \<Rightarrow>
          (case deliver i' ms of
             Inl f \<Rightarrow> Inl f
           | Inr tr \<Rightarrow> Inr ((i', e) # tr)))"

text \<open>
  The message was handled: the handler ended by releasing the batch handle and did
  not forward.
\<close>

definition was_handled :: "effect \<Rightarrow> bool" where
  "was_handled e = (case e of CloseTouchInputHandle h \<Rightarrow> True | CallWindowProc p h u w l \<Rightarrow> False)"

text \<open>The contact count \<open>ni\<close> of line 153, the state after lines 155-163 when the
  allocation did not fail, and the records that the platform stores on line 169.\<close>

definition contact_count :: "wndmsg \<Rightarrow> dword" where
  "contact_count m = ucast (wParam m)"

definition grown :: "tslib_input \<Rightarrow> dword \<Rightarrow> tslib_input" where
  "grown i ni =
     (if max_slots i < ni
      then i\<lparr>buf := Some (replicate (unat ni) zero_touch), max_slots := ni\<rparr>
      else i)"

definition unpacked :: "platform \<Rightarrow> dword \<Rightarrow> TOUCHINPUT list" where
  "unpacked env c = take (unat c) (touch_recs env)"

text \<open>
  The allocation invariant of the adapter state: a \<open>NULL\<close> buffer goes with capacity
  zero, and an allocated buffer holds at least as many records as the non-negative
  capacity says.
\<close>

definition buf_ok :: "tslib_input \<Rightarrow> bool" where
  "buf_ok i \<longleftrightarrow>
     (case buf i of
        None \<Rightarrow> max_slots i = 0
      | Some rs \<Rightarrow> 0 \<le> sint (max_slots i) \<and> unat (max_slots i) \<le> length rs)"

section \<open>Options and module initialization\<close>

text \<open>
  Modelled from the spec: \<open>strtoul\<close> with base 0 is the C library's and
  \<open>ULONG_MAX\<close>, \<open>ERANGE\<close> are its header's; src/ holds none of them. The option
  accepts an integer; the conversion follows the C standard on the platform's 32-bit
  \<open>unsigned long\<close>: white space is skipped, a sign is read, a \<open>0x\<close> prefix selects
  base 16 and a leading \<open>0\<close> base 8, the longest run of digits is converted, a run
  of no digits converts to 0, a value beyond \<open>ULONG_MAX\<close> gives \<open>ULONG_MAX\<close> and
  sets \<open>errno\<close> to \<open>ERANGE\<close>, and nothing else changes \<open>errno\<close>.
\<close>

definition ULONG_MAX :: dword where
  "ULONG_MAX = 0xFFFFFFFF"

definition ERANGE :: int where
  "ERANGE = 34"

definition isspace :: "char \<Rightarrow> bool" where
  "isspace c \<longleftrightarrow> (of_char c :: nat) = 32 \<or> (9 \<le> (of_char c :: nat) \<and> (of_char c :: nat) \<le> 13)"

definition digit_val :: "char \<Rightarrow> nat option" where
  "digit_val c =
     (let n = (of_char c :: nat) in
      if 48 \<le> n \<and> n \<le> 57 then Some (n - 48)
      else if 97 \<le> n \<and> n \<le> 122 then Some (n - 87)
      else if 65 \<le> n \<and> n \<le> 90 then Some (n - 55)
      else None)"

fun digits_of :: "nat \<Rightarrow> string \<Rightarrow> nat list" where
  "digits_of b [] = []"
| "digits_of b (c # cs) =
     (case digit_val c of
        None \<Rightarrow> []
      | Some d \<Rightarrow> if d < b then d # digits_of b cs else [])"

definition skip_sign :: "string \<Rightarrow> bool \<times> string" where
  "skip_sign s =
     (case s of
        [] \<Rightarrow> (False, s)
      | c # cs \<Rightarrow>
          if c = CHR ''-'' then (True, cs)
          else if c = CHR ''+'' then (False, cs)
          else (False, s))"

definition base_prefix :: "string \<Rightarrow> nat \<times> string" where
  "base_prefix s =
     (case s of
        c0 # c1 # c2 # cs \<Rightarrow>
          if c0 = CHR ''0'' \<and> (c1 = CHR ''x'' \<or> c1 = CHR ''X'') \<and> digits_of 16 [c2] \<noteq> []
          then (16, c2 # cs)
          else if c0 = CHR ''0'' then (8, s) else (10, s)
      | c0 # cs \<Rightarrow> if c0 = CHR ''0'' then (8, s) else (10, s)
      | [] \<Rightarrow> (10, s))"

definition strtoul :: "string \<Rightarrow> int \<Rightarrow> dword \<times> int" where
  "strtoul str errno =
     (let (neg, s1) = skip_sign (dropWhile isspace str);
          (b, s2) = base_prefix s1;
          n = foldl (\<lambda>a d. a * b + d) 0 (digits_of b s2)
      in if unat ULONG_MAX < n then (ULONG_MAX, ERANGE)
         else if neg then (- of_nat n, errno)
         else (of_nat n, errno))"

text \<open>
  \<open>parse_raw_grab\<close>, lines 112-133, on the adapter state, the option's value, the
  \<open>data\<close> tag of the option table and the current \<open>errno\<close>; it gives the returned
  status, the state and \<open>errno\<close> afterwards.
\<close>

definition parse_raw_grab ::
  "tslib_input \<Rightarrow> string \<Rightarrow> int \<Rightarrow> int \<Rightarrow> int \<times> tslib_input \<times> int" where
  "parse_raw_grab i str data_arg errno =
     (let err = errno;
          (v, errno1) = strtoul str errno
      in if v = ULONG_MAX \<and> errno1 = ERANGE then (- 1, i, errno1)
         else if data_arg = 1
         then (0, if v \<noteq> 0 then i\<lparr>grab_events := GRAB_EVENTS_WANTED\<rparr> else i, err)
         else (- 1, i, err))"

text \<open>A run of \<open>grab_events\<close> parses, one value after the other.\<close>

fun parse_grab_seq :: "tslib_input \<Rightarrow> string list \<Rightarrow> int \<Rightarrow> tslib_input" where
  "parse_grab_seq i [] errno = i"
| "parse_grab_seq i (str # strs) errno =
     (case parse_raw_grab i str 1 errno of (r, i', errno') \<Rightarrow> parse_grab_seq i' strs errno')"

record tslib_vars =
  var_name :: string
  var_data :: int
  var_fn :: "tslib_input \<Rightarrow> string \<Rightarrow> int \<Rightarrow> int \<Rightarrow> int \<times> tslib_input \<times> int"

definition raw_vars :: "tslib_vars list" where
  "raw_vars = [\<lparr>var_name = ''grab_events'', var_data = 1, var_fn = parse_raw_grab\<rparr>]"

text \<open>
  Modelled from the spec: \<open>tslib_parse_vars\<close>, the host's generic key/value option
  parser, is not in src/. It reads the configuration string as a sequence of options,
  each a key with a value, and hands the value of a recognized key to that key's
  function of the option table; an unrecognized key and a failing function are
  configuration errors, reported by a non-zero status. The options are taken here as
  the parser reads them from the string.
\<close>

fun tslib_parse_vars ::
  "tslib_input \<Rightarrow> tslib_vars list \<Rightarrow> (string \<times> string) list \<Rightarrow> int \<Rightarrow>
     int \<times> tslib_input \<times> int" where
  "tslib_parse_vars i vars [] errno = (0, i, errno)"
| "tslib_parse_vars i vars ((key, val) # opts) errno =
     (case find (\<lambda>v. var_name v = key) vars of
        None \<Rightarrow> (- 1, i, errno)
      | Some v \<Rightarrow>
          (case var_fn v i val (var_data v) errno of
             (r, i', errno') \<Rightarrow>
               if r \<noteq> 0 then (r, i', errno') else tslib_parse_vars i' vars opts errno'))"

text \<open>
  The window behind \<open>dev->fd\<close>: its window procedure and whether its user data
  points at the adapter state.
\<close>

record window =
  wnd_proc :: WNDPROC
  wnd_userdata :: bool

text \<open>
  What \<open>wmtouch_mod_init\<close> leaves: the returned module (\<open>None\<close> for \<open>NULL\<close>),
  whether the allocated adapter state was freed, and the window.
\<close>

record init_result =
  module_info :: "tslib_input option"
  adapter_freed :: bool
  dev_window :: window

text \<open>
  \<open>wmtouch_mod_init\<close>. \<open>mem\<close> is what \<open>malloc\<close> on line 192 returns: \<open>None\<close> for
  \<open>NULL\<close>, otherwise memory of indeterminate content, of which lines 197-211 assign
  every field but \<open>prevWndProc\<close>.
\<close>

definition wmtouch_mod_init ::
  "window \<Rightarrow> (string \<times> string) list \<Rightarrow> tslib_input option \<Rightarrow> int \<Rightarrow> init_result" where
  "wmtouch_mod_init dev params mem errno =
     (case mem of
        None \<Rightarrow> \<lparr>module_info = None, adapter_freed = False, dev_window = dev\<rparr>
      | Some i0 \<Rightarrow>
          (let i = i0\<lparr>current_x := 0, current_y := 0, current_p := 0, grab_events := 0,
                      slot := 0, pen_down := 0, buf := None, max_slots := 0, nr := 0,
                      mt := 0, no_pressure := 0, last_fd := - 2, type_a := 0,
                      special_device := 0, last_pressure := None\<rparr>
           in case tslib_parse_vars i raw_vars params errno of
                (r, i', errno') \<Rightarrow>
                  if r \<noteq> 0
                  then \<lparr>module_info = None, adapter_freed = True, dev_window = dev\<rparr>
                  else \<lparr>module_info = Some (i'\<lparr>prevWndProc := wnd_proc dev\<rparr>),
                        adapter_freed = False,
                        dev_window = dev\<lparr>wnd_userdata := True, wnd_proc := Tslib_WndProc\<rparr>\<rparr>))"

section \<open>Concrete states and messages\<close>

text \<open>
  The adapter state that initialization without options builds on a window whose
  procedure was \<open>Host_WndProc 0\<close>.
\<close>

definition blank_input :: tslib_input where
  "blank_input =
     \<lparr>current_x = 0, current_y = 0, current_p = 0, grab_events = 0,
      prevWndProc = Host_WndProc 0, buf = None, slot = 0, max_slots = 0, nr = 0,
      pen_down = 0, last_fd = - 2, mt = 0, no_pressure = 0, type_a = 0,
      last_pressure = None, special_device = 0\<rparr>"

definition touch :: "c_long \<Rightarrow> c_long \<Rightarrow> dword \<Rightarrow> dword \<Rightarrow> TOUCHINPUT" where
  "touch px py fl t = \<lparr>ti_x = px, ti_y = py, dwID = 0, dwFlags = fl, dwTime = t\<rparr>"

text \<open>
  The scenario of the specification: three contacts with flags down, up, move at
  (10,20), (30,40), (50,60), each with the timestamp 1500 ms.
\<close>

definition scenario_batch :: "TOUCHINPUT list" where
  "scenario_batch =
     [touch 10 20 TOUCHEVENTF_DOWN 1500, touch 30 40 TOUCHEVENTF_UP 1500,
      touch 50 60 TOUCHEVENTF_MOVE 1500]"

definition scenario_input :: tslib_input where
  "scenario_input = blank_input\<lparr>buf := Some scenario_batch, max_slots := 3\<rparr>"

text \<open>What a caller's sample holds before a read.\<close>

definition stale_sample :: ts_sample where
  "stale_sample = \<lparr>samp_x = 7, samp_y = 8, samp_pressure = 9, tv_sec = 5, tv_usec = 6\<rparr>"

definition stale_mt :: ts_sample_mt where
  "stale_mt =
     \<lparr>mt_x = 7, mt_y = 8, mt_pressure = 9, mt_slot = 0, mt_tracking_id = 0,
      mt_tv_sec = 5, mt_tv_usec = 6\<rparr>"

text \<open>
  A state of capacity 2 that holds a batch of two contacts, a batch touch message of
  ten contacts, and a platform on which \<open>malloc\<close> fails.
\<close>

definition two_contact_input :: tslib_input where
  "two_contact_input =
     blank_input\<lparr>buf := Some [touch 10 20 TOUCHEVENTF_DOWN 1500,
                               touch 30 40 TOUCHEVENTF_MOVE 1500],
                 max_slots := 2\<rparr>"

definition ten_contact_msg :: wndmsg where
  "ten_contact_msg = \<lparr>hwnd = 1, uMsg = WM_TOUCH, wParam = 10, lParam = 5\<rparr>"

definition out_of_memory :: platform where
  "out_of_memory = \<lparr>malloc_ok = False, touch_ok = True, touch_recs = [], prev_result = 77\<rparr>"

section \<open>Notions of the specification\<close>

text \<open>
  A parsable numeric value, in the words of the specification: the whole value is one
  integer in the syntax that the conversion reads, with at least one digit and
  nothing after the digits.
\<close>

definition numeric_value :: "string \<Rightarrow> bool" where
  "numeric_value str =
     (let (neg, s1) = skip_sign (dropWhile isspace str);
          (b, s2) = base_prefix s1
      in s2 \<noteq> [] \<and> length (digits_of b s2) = length s2)"

text \<open>
  The value is out of the range of \<open>unsigned long\<close>: the conversion reports
  \<open>ERANGE\<close> although \<open>errno\<close> was clear before.
\<close>

definition strtoul_overflows :: "string \<Rightarrow> bool" where
  "strtoul_overflows str \<longleftrightarrow> strtoul str 0 = (ULONG_MAX, ERANGE)"

text \<open>The slot \<open>s\<close> after lines 89-92 stored the record \<open>r\<close> in it.\<close>

definition normalise_mt :: "ts_sample_mt \<Rightarrow> TOUCHINPUT \<Rightarrow> ts_sample_mt" where
  "normalise_mt s r =
     s\<lparr>mt_x := ti_x r, mt_y := ti_y r, mt_tv_usec := dwTime r * 1000,
       mt_tv_sec := dwTime r div 1000\<rparr>"

text \<open>
  The number of records that the loop of the multi-point read visits, and those
  records: the first \<open>min(max_arg, max_slots)\<close> of the buffer.
\<close>

definition scan_limit :: "tslib_input \<Rightarrow> c_int \<Rightarrow> nat" where
  "scan_limit i max_arg = min (nat (sint max_arg)) (nat (sint (max_slots i)))"

definition scanned :: "tslib_input \<Rightarrow> c_int \<Rightarrow> TOUCHINPUT list" where
  "scanned i max_arg =
     take (scan_limit i max_arg) (case buf i of None \<Rightarrow> [] | Some rs \<Rightarrow> rs)"

text \<open>The caller's array after the records \<open>act\<close> were stored from slot \<open>k\<close> on.\<close>

fun store_samples :: "ts_sample_mt list \<Rightarrow> nat \<Rightarrow> TOUCHINPUT list \<Rightarrow> ts_sample_mt list" where
  "store_samples samp k [] = samp"
| "store_samples samp k (r # rs) =
     store_samples (samp[k := normalise_mt (samp ! k) r]) (Suc k) rs"

text \<open>The fields of a slot that the multi-point read assigns.\<close>

definition written :: "ts_sample_mt \<Rightarrow> c_int \<times> c_int \<times> c_long \<times> c_long" where
  "written s = (mt_x s, mt_y s, mt_tv_sec s, mt_tv_usec s)"

text \<open>
  More messages and platform answers: a message that is not a batch touch message,
  batches of three and of no contacts, a platform that delivers the scenario's
  batch, one on which unpacking fails, one that delivers no record, and a state of
  capacity 5 that holds five contacts.
\<close>

definition paint_msg :: wndmsg where
  "paint_msg = \<lparr>hwnd = 1, uMsg = 0x000F, wParam = 0, lParam = 0\<rparr>"

definition three_contact_msg :: wndmsg where
  "three_contact_msg = \<lparr>hwnd = 1, uMsg = WM_TOUCH, wParam = 3, lParam = 5\<rparr>"

definition zero_contact_msg :: wndmsg where
  "zero_contact_msg = \<lparr>hwnd = 1, uMsg = WM_TOUCH, wParam = 0, lParam = 5\<rparr>"

definition scenario_platform :: platform where
  "scenario_platform =
     \<lparr>malloc_ok = True, touch_ok = True, touch_recs = scenario_batch, prev_result = 77\<rparr>"

definition unpack_fails :: platform where
  "unpack_fails = \<lparr>malloc_ok = True, touch_ok = False, touch_recs = [], prev_result = 77\<rparr>"

definition empty_batch :: platform where
  "empty_batch = \<lparr>malloc_ok = True, touch_ok = True, touch_recs = [], prev_result = 77\<rparr>"

definition five_contact_input :: tslib_input where
  "five_contact_input =
     blank_input\<lparr>buf := Some [touch 1 1 TOUCHEVENTF_DOWN 1500, touch 2 2 TOUCHEVENTF_DOWN 1500,
                               touch 3 3 TOUCHEVENTF_DOWN 1500, touch 4 4 TOUCHEVENTF_DOWN 1500,
                               touch 5 5 TOUCHEVENTF_DOWN 1500],
                 max_slots := 5\<rparr>"

section \<open>Verified properties\<close>

subsection \<open>Timestamp conversion\<close>

text \<open>
  C1. A record's millisecond timestamp should be split into seconds \<open>ms / 1000\<close> and
  microseconds \<open>(ms mod 1000) * 1000\<close>, so 1500 ms should give 1 s and 500000 us. On
  the scenario of the specification both reads store \<open>dwTime * 1000\<close>, which is
  1500000, in the microsecond field: line 71 and line 91 multiply the whole
  timestamp and take no remainder.
\<close>

theorem timestamp_usec_not_reduced:
  "ts_mswin_input_read scenario_input stale_sample 1 =
     Inr (stale_sample\<lparr>samp_x := 10, samp_y := 20, tv_usec := 1500000, tv_sec := 1\<rparr>, 1)
   \<and> ts_mswin_input_read_mt scenario_input
         [stale_mt, stale_mt, stale_mt, stale_mt, stale_mt] 5 1 =
     Inr ([stale_mt\<lparr>mt_x := 10, mt_y := 20, mt_tv_usec := 1500000, mt_tv_sec := 1\<rparr>,
           stale_mt\<lparr>mt_x := 50, mt_y := 60, mt_tv_usec := 1500000, mt_tv_sec := 1\<rparr>,
           stale_mt, stale_mt, stale_mt], 2)
   \<and> (1500000 :: c_long) \<noteq> (1500 mod 1000) * 1000"
  by (simp add: ts_mswin_input_read_def ts_mswin_input_read_mt_def read_mt_loop.simps
      scenario_input_def scenario_batch_def blank_input_def touch_def down_or_move_def
      TOUCHEVENTF_DOWN_def TOUCHEVENTF_MOVE_def TOUCHEVENTF_UP_def)

subsection \<open>Failed buffer growth\<close>

text \<open>
  C2. When the buffer has to grow and the allocation fails, the buffer pointer, the
  buffer contents and the capacity should all be as before. In a state of capacity 2
  that receives a batch of ten contacts while \<open>malloc\<close> fails, the handler forwards
  the message and keeps the capacity 2, but the old buffer was freed on line 156 and
  \<open>buf\<close> is \<open>NULL\<close> afterwards; the next single-point read dereferences it.
\<close>

theorem failed_growth_loses_buffer:
  "tslibWndProc two_contact_input out_of_memory ten_contact_msg =
     Inr (two_contact_input\<lparr>buf := None\<rparr>,
          CallWindowProc (Host_WndProc 0) 1 WM_TOUCH 10 5, 77)
   \<and> buf (two_contact_input\<lparr>buf := None\<rparr>) \<noteq> buf two_contact_input
   \<and> max_slots (two_contact_input\<lparr>buf := None\<rparr>) = 2
   \<and> ts_mswin_input_read (two_contact_input\<lparr>buf := None\<rparr>) stale_sample 1 = Inl NullPointer"
  by (simp add: tslibWndProc_def forward_def two_contact_input_def out_of_memory_def
      ten_contact_msg_def blank_input_def ts_mswin_input_read_def)

subsection \<open>Single-point read\<close>

lemma buf_ok_first:
  assumes "buf_ok i" and "max_slots i \<noteq> 0"
  shows "\<exists>r rs. buf i = Some (r # rs)"
proof (cases "buf i")
  case None
  with assms show ?thesis by (simp add: buf_ok_def)
next
  case (Some rs)
  with assms have "unat (max_slots i) \<le> length rs" by (simp add: buf_ok_def)
  moreover from assms(2) have "unat (max_slots i) \<noteq> 0" by (simp add: unat_eq_0)
  ultimately have "rs \<noteq> []" by auto
  with Some show ?thesis by (cases rs) auto
qed

text \<open>
  On a state that satisfies the allocation invariant the single-point read returns:
  0 with the sample untouched when the capacity is zero, and otherwise 1, with the
  fields of lines 69-72 stored when record 0 is down or moving and the sample
  untouched when it is not.
\<close>

lemma single_read_on_allocated_buffer:
  assumes "buf_ok i"
  shows "(max_slots i = 0 \<longrightarrow> ts_mswin_input_read i samp0 n = Inr (samp0, 0))
       \<and> (max_slots i \<noteq> 0 \<longrightarrow>
            (\<exists>r rs. buf i = Some (r # rs)
               \<and> ts_mswin_input_read i samp0 n =
                   Inr (if down_or_move r
                        then samp0\<lparr>samp_x := ti_x r, samp_y := ti_y r,
                                   tv_usec := dwTime r * 1000, tv_sec := dwTime r div 1000\<rparr>
                        else samp0, 1)))
       \<and> ((\<exists>s. ts_mswin_input_read i samp0 n = Inr (s, 0)) \<longleftrightarrow> max_slots i = 0)"
proof (cases "max_slots i = 0")
  case True
  then show ?thesis by (simp add: ts_mswin_input_read_def)
next
  case False
  with assms obtain r rs where "buf i = Some (r # rs)"
    using buf_ok_first by blast
  with False show ?thesis by (simp add: ts_mswin_input_read_def)
qed

text \<open>
  C3. The single-point read should return 0 exactly when the capacity is zero and
  otherwise return 1, storing record 0 when it is down or moving. The adapter reaches
  a state where it does neither: a handled batch of three contacts brings the capacity
  to 3, the next batch of ten contacts finds \<open>malloc\<close> failing, and lines 156-160
  leave the capacity 3 with \<open>buf\<close> holding \<open>NULL\<close>. The capacity is not zero, so
  line 63 does not return, and line 66 reads \<open>buf[0]\<close> through the null pointer:
  the read returns nothing.
\<close>

theorem single_read_after_failed_growth:
  "deliver blank_input
     [(scenario_platform, three_contact_msg), (out_of_memory, ten_contact_msg)] =
     Inr [(scenario_input, CloseTouchInputHandle 5),
          (scenario_input\<lparr>buf := None\<rparr>, CallWindowProc (Host_WndProc 0) 1 WM_TOUCH 10 5)]
   \<and> max_slots (scenario_input\<lparr>buf := None\<rparr>) = 3
   \<and> ts_mswin_input_read (scenario_input\<lparr>buf := None\<rparr>) stale_sample 1 = Inl NullPointer"
  by (simp add: tslibWndProc_def forward_def memset_zero_def GetTouchInputInfo_def
      blank_input_def WM_TOUCH_def three_contact_msg_def ten_contact_msg_def
      scenario_platform_def out_of_memory_def scenario_input_def scenario_batch_def
      ts_mswin_input_read_def)

subsection \<open>The grab_events option\<close>

lemmas strtoul_eval = strtoul_def isspace_def skip_sign_def base_prefix_def digit_val_def
  ULONG_MAX_def ERANGE_def

lemma strtoul_overflows_any_errno:
  assumes "strtoul_overflows str"
  shows "strtoul str errno = (ULONG_MAX, ERANGE)"
  using assms
  by (auto simp: strtoul_overflows_def strtoul_def ERANGE_def Let_def split: prod.splits if_splits)

lemma parse_raw_grab_state:
  "fst (snd (parse_raw_grab i str d errno)) =
     (if fst (parse_raw_grab i str d errno) = 0 \<and> fst (strtoul str errno) \<noteq> 0
      then i\<lparr>grab_events := GRAB_EVENTS_WANTED\<rparr> else i)"
  by (auto simp: parse_raw_grab_def Let_def split: prod.splits)

lemma parse_raw_grab_keeps_wanted:
  "grab_events i = GRAB_EVENTS_WANTED \<Longrightarrow>
     grab_events (fst (snd (parse_raw_grab i str d errno))) = GRAB_EVENTS_WANTED"
  by (simp add: parse_raw_grab_state)

lemma parse_grab_seq_keeps_wanted:
  "grab_events i = GRAB_EVENTS_WANTED \<Longrightarrow>
     grab_events (parse_grab_seq i strs errno) = GRAB_EVENTS_WANTED"
proof (induction strs arbitrary: i errno)
  case Nil
  then show ?case by simp
next
  case (Cons str strs)
  obtain r i' e' where p: "parse_raw_grab i str 1 errno = (r, i', e')"
    by (cases "parse_raw_grab i str 1 errno") auto
  from Cons.prems have "grab_events i' = GRAB_EVENTS_WANTED"
    using parse_raw_grab_keeps_wanted [of i str 1 errno] p by simp
  then show ?case using Cons.IH p by simp
qed

lemma parse_zero: "parse_raw_grab i ''0'' 1 errno = (0, i, errno)"
  by (simp add: parse_raw_grab_def strtoul_eval)

text \<open>
  C10. The \<open>grab_events\<close> flag is set-only. One parse changes the state only by
  setting the flag, and only when it succeeds with a non-zero value; the value \<open>0\<close>
  parses successfully and leaves the state as it is; and once the flag is set, it
  stays set through every further sequence of parses.
\<close>

theorem grab_events_set_only:
  "fst (snd (parse_raw_grab i str 1 errno)) =
     (if fst (parse_raw_grab i str 1 errno) = 0 \<and> fst (strtoul str errno) \<noteq> 0
      then i\<lparr>grab_events := GRAB_EVENTS_WANTED\<rparr> else i)
   \<and> parse_raw_grab i ''0'' 1 errno = (0, i, errno)
   \<and> (grab_events i = GRAB_EVENTS_WANTED \<longrightarrow>
        grab_events (parse_grab_seq i strs errno) = GRAB_EVENTS_WANTED)"
  using parse_raw_grab_state parse_zero parse_grab_seq_keeps_wanted by blast

theorem grab_events_set_only_witness:
  "grab_events (blank_input\<lparr>grab_events := 1\<rparr>) = GRAB_EVENTS_WANTED
   \<and> grab_events (parse_grab_seq (blank_input\<lparr>grab_events := 1\<rparr>) [''0'', ''0''] 0) =
       GRAB_EVENTS_WANTED
   \<and> parse_grab_seq blank_input [''1'', ''0''] 0 = blank_input\<lparr>grab_events := 1\<rparr>"
proof -
  have h: "grab_events (blank_input\<lparr>grab_events := 1\<rparr>) = GRAB_EVENTS_WANTED"
    by (simp add: GRAB_EVENTS_WANTED_def)
  have e: "parse_grab_seq blank_input [''1'', ''0''] 0 = blank_input\<lparr>grab_events := 1\<rparr>"
    by (simp add: parse_raw_grab_def strtoul_eval GRAB_EVENTS_WANTED_def)
  show ?thesis
    using h e
      grab_events_set_only [of "blank_input\<lparr>grab_events := 1\<rparr>" "''0''" 0 "[''0'', ''0'']"]
    by simp
qed

subsection \<open>Module initialization\<close>

lemma find_raw_vars:
  "find (\<lambda>v. var_name v = key) raw_vars =
     (if key = ''grab_events''
      then Some \<lparr>var_name = ''grab_events'', var_data = 1, var_fn = parse_raw_grab\<rparr>
      else None)"
  by (auto simp: raw_vars_def)

lemma parse_raw_grab_overflow:
  "strtoul_overflows val \<Longrightarrow> fst (parse_raw_grab i val d errno) = - 1"
  by (simp add: parse_raw_grab_def strtoul_overflows_any_errno)

lemma tslib_parse_vars_error:
  assumes "(k, v) \<in> set params" and "k \<noteq> ''grab_events'' \<or> strtoul_overflows v"
  shows "fst (tslib_parse_vars i raw_vars params errno) \<noteq> 0"
  using assms(1)
proof (induction params arbitrary: i errno)
  case Nil
  then show ?case by simp
next
  case (Cons opt params)
  obtain key val where opt: "opt = (key, val)" by (cases opt) auto
  show ?case
  proof (cases "key = ''grab_events''")
    case False
    then show ?thesis by (simp add: opt find_raw_vars)
  next
    case True
    obtain r i' e' where p: "parse_raw_grab i val 1 errno = (r, i', e')"
      by (cases "parse_raw_grab i val 1 errno") auto
    show ?thesis
    proof (cases "r = 0")
      case False
      with True p show ?thesis by (simp add: opt find_raw_vars)
    next
      case r0: True
      have "(k, v) \<noteq> (key, val)"
      proof
        assume "(k, v) = (key, val)"
        with assms(2) True have "strtoul_overflows val" by simp
        then have "fst (parse_raw_grab i val 1 errno) = - 1"
          by (rule parse_raw_grab_overflow)
        with p r0 show False by simp
      qed
      with Cons.prems opt have "(k, v) \<in> set params" by auto
      then have "fst (tslib_parse_vars i' raw_vars params e') \<noteq> 0" by (rule Cons.IH)
      with True p r0 show ?thesis by (simp add: opt find_raw_vars)
    qed
  qed
qed

text \<open>
  C5, as the code has it. When the adapter state was allocated and the options hold
  an unrecognized key, or a \<open>grab_events\<close> value that is out of the range of
  \<open>unsigned long\<close>, initialization frees the adapter state, returns \<open>NULL\<close> and
  leaves the window as it was.
\<close>

theorem init_fails_on_bad_option:
  assumes "(k, v) \<in> set params" and "k \<noteq> ''grab_events'' \<or> strtoul_overflows v"
  shows "wmtouch_mod_init dev params (Some i0) errno =
           \<lparr>module_info = None, adapter_freed = True, dev_window = dev\<rparr>"
proof -
  let ?i = "i0\<lparr>current_x := 0, current_y := 0, current_p := 0, grab_events := 0,
               slot := 0, pen_down := 0, buf := None, max_slots := 0, nr := 0,
               mt := 0, no_pressure := 0, last_fd := - 2, type_a := 0,
               special_device := 0, last_pressure := None\<rparr>"
  obtain r i' e' where p: "tslib_parse_vars ?i raw_vars params errno = (r, i', e')"
    by (cases "tslib_parse_vars ?i raw_vars params errno") auto
  from tslib_parse_vars_error [OF assms, of ?i errno] p have "r \<noteq> 0" by simp
  with p show ?thesis by (simp add: wmtouch_mod_init_def)
qed

theorem init_fails_on_bad_option_witness:
  "wmtouch_mod_init \<lparr>wnd_proc = Host_WndProc 0, wnd_userdata = False\<rparr>
      [(''grab_events'', ''1''), (''grab'', ''1'')] (Some blank_input) 0 =
    \<lparr>module_info = None, adapter_freed = True,
     dev_window = \<lparr>wnd_proc = Host_WndProc 0, wnd_userdata = False\<rparr>\<rparr>
  \<and> strtoul_overflows ''4294967296''
  \<and> wmtouch_mod_init \<lparr>wnd_proc = Host_WndProc 0, wnd_userdata = False\<rparr>
      [(''grab_events'', ''4294967296'')] (Some blank_input) 0 =
    \<lparr>module_info = None, adapter_freed = True,
     dev_window = \<lparr>wnd_proc = Host_WndProc 0, wnd_userdata = False\<rparr>\<rparr>"
proof -
  have a: "(''grab'', ''1'') \<in> set [(''grab_events'', ''1''), (''grab'', ''1'')]" by simp
  have b: "''grab'' \<noteq> ''grab_events'' \<or> strtoul_overflows ''1''" by simp
  have c: "(''grab_events'', ''4294967296'') \<in> set [(''grab_events'', ''4294967296'')]"
    by simp
  have d: "strtoul_overflows ''4294967296''"
    by (simp add: strtoul_overflows_def strtoul_eval)
  then have d': "''grab_events'' \<noteq> ''grab_events'' \<or> strtoul_overflows ''4294967296''"
    by simp
  show ?thesis
    using init_fails_on_bad_option [OF a b] init_fails_on_bad_option [OF c d'] d by simp
qed

text \<open>
  C5, as the claim has it, fails for a value that is not a number: \<open>abc\<close> converts
  to 0 without an error, \<open>parse_raw_grab\<close> returns 0, and initialization succeeds
  and installs the handler.
\<close>

theorem non_numeric_value_accepted:
  "\<not> numeric_value ''abc''
   \<and> wmtouch_mod_init \<lparr>wnd_proc = Host_WndProc 0, wnd_userdata = False\<rparr>
       [(''grab_events'', ''abc'')] (Some blank_input) 0 =
     \<lparr>module_info = Some blank_input, adapter_freed = False,
      dev_window = \<lparr>wnd_proc = Tslib_WndProc, wnd_userdata = True\<rparr>\<rparr>"
  by (simp add: numeric_value_def wmtouch_mod_init_def raw_vars_def parse_raw_grab_def
      blank_input_def strtoul_eval)

subsection \<open>Signed and unsigned readings of a capacity\<close>

lemma sint_nonneg_uint:
  fixes w :: "32 word"
  assumes "0 \<le> sint w"
  shows "sint w = uint w"
proof -
  have s: "sint w = signed_take_bit 31 (uint w)" by (simp add: sint_uint)
  have "uint w < 2 ^ 31"
  proof (rule ccontr)
    assume "\<not> uint w < 2 ^ 31"
    then have "(2::int) ^ 31 \<le> uint w" by linarith
    then have "signed_take_bit 31 (uint w) \<le> uint w - 2 ^ Suc 31"
      by (rule signed_take_bit_int_less_eq)
    moreover have "uint w < 2 ^ 32" using uint_lt2p [of w] by simp
    moreover have "(2::int) ^ Suc 31 = 2 ^ 32" by simp
    ultimately have "signed_take_bit 31 (uint w) < 0" by linarith
    with assms s show False by linarith
  qed
  moreover have "- (2 ^ 31) \<le> uint w"
  proof -
    have "0 \<le> uint w" by simp
    moreover have "- ((2::int) ^ 31) \<le> 0" by simp
    ultimately show ?thesis by linarith
  qed
  ultimately have "signed_take_bit 31 (uint w) = uint w"
    by (rule signed_take_bit_int_eq_self [rotated])
  with s show ?thesis by simp
qed

lemma nat_sint_unat:
  fixes w :: "32 word"
  shows "0 \<le> sint w \<Longrightarrow> nat (sint w) = unat w"
  using sint_nonneg_uint [of w] by simp

lemma uint_scast_64:
  fixes w :: "32 word"
  shows "uint (scast w :: 64 word) = take_bit 64 (sint w)"
  by (simp only: scast_eq uint_word_of_int_eq) simp

lemma unat_scast_nonneg:
  fixes w :: "32 word"
  assumes "0 \<le> sint w"
  shows "unat (scast w :: 64 word) = unat w"
proof -
  have "sint w < 2 ^ 31" using sint_lt [of w] by simp
  moreover have "(2::int) ^ 31 < 2 ^ 64" by simp
  ultimately have "sint w < 2 ^ 64" by linarith
  with assms have "take_bit 64 (sint w) = sint w"
    by (rule take_bit_int_eq_self)
  with sint_nonneg_uint [OF assms] have "uint (scast w :: 64 word) = uint w"
    by (simp only: uint_scast_64)
  then show ?thesis by (simp only: unat_eq_nat_uint)
qed

lemma unat_scast_neg:
  fixes w :: "32 word"
  assumes "sint w < 0"
  shows "unat w < unat (scast w :: 64 word)"
proof -
  have "- (2 ^ 31) \<le> sint w" using sint_ge [of w] by simp
  moreover have "sint w + 2 ^ 64 \<le> take_bit 64 (sint w)"
    using assms by (rule take_bit_int_greater_eq)
  moreover have "uint w < 2 ^ 32" using uint_lt2p [of w] by simp
  moreover have "(2::int) ^ 32 \<le> 2 ^ 64 - 2 ^ 31" by simp
  ultimately have "uint w < take_bit 64 (sint w)" by linarith
  then have "uint w < uint (scast w :: 64 word)" by (simp only: uint_scast_64)
  moreover have "0 \<le> uint w" by simp
  ultimately have "nat (uint w) < nat (uint (scast w :: 64 word))" by linarith
  then show ?thesis by (simp only: unat_eq_nat_uint)
qed

lemma unat_scast_zero:
  fixes w :: "32 word"
  shows "unat (scast w :: 64 word) = 0 \<longleftrightarrow> w = 0"
proof (cases "0 \<le> sint w")
  case True
  then show ?thesis by (simp only: unat_scast_nonneg unat_eq_0)
next
  case False
  then have n: "sint w < 0" by linarith
  then have "unat (scast w :: 64 word) \<noteq> 0" using unat_scast_neg [of w] by linarith
  moreover from n have "w \<noteq> 0" by auto
  ultimately show ?thesis by simp
qed


subsection \<open>Multi-point read\<close>

lemma loop_cond: "(int j < sint max_arg \<and> int j < sint (max_slots i)) \<longleftrightarrow> j < scan_limit i max_arg"
  by (auto simp: scan_limit_def)

lemma read_mt_loop_done:
  "\<not> j < scan_limit i max_arg \<Longrightarrow> read_mt_loop i samp max_arg j k = Inr (samp, k)"
  by (subst read_mt_loop.simps) (simp add: loop_cond)

lemma read_mt_loop_skip:
  "j < scan_limit i max_arg \<Longrightarrow> buf i = Some rs \<Longrightarrow> j < length rs \<Longrightarrow> \<not> down_or_move (rs ! j) \<Longrightarrow>
     read_mt_loop i samp max_arg j k = read_mt_loop i samp max_arg (Suc j) k"
  by (subst read_mt_loop.simps) (simp add: loop_cond)

lemma read_mt_loop_emit:
  "j < scan_limit i max_arg \<Longrightarrow> buf i = Some rs \<Longrightarrow> j < length rs \<Longrightarrow> down_or_move (rs ! j) \<Longrightarrow>
     k < length samp \<Longrightarrow>
     read_mt_loop i samp max_arg j k =
       read_mt_loop i (samp[k := normalise_mt (samp ! k) (rs ! j)]) max_arg (Suc j) (Suc k)"
  by (subst read_mt_loop.simps) (simp add: loop_cond normalise_mt_def)

lemma length_store_samples [simp]: "length (store_samples samp k act) = length samp"
  by (induction act arbitrary: samp k) auto

lemma store_samples_nth:
  "n < length samp \<Longrightarrow> k + length act \<le> length samp \<Longrightarrow>
     store_samples samp k act ! n =
       (if k \<le> n \<and> n < k + length act then normalise_mt (samp ! n) (act ! (n - k))
        else samp ! n)"
proof (induction act arbitrary: samp k)
  case Nil
  then show ?case by auto
next
  case (Cons r act)
  let ?samp1 = "samp[k := normalise_mt (samp ! k) r]"
  from Cons.prems have "n < length ?samp1" and "Suc k + length act \<le> length ?samp1"
    by simp_all
  from Cons.IH [OF this]
  have ih: "store_samples ?samp1 (Suc k) act ! n =
       (if Suc k \<le> n \<and> n < Suc k + length act then normalise_mt (?samp1 ! n) (act ! (n - Suc k))
        else ?samp1 ! n)" .
  show ?case
  proof (cases "n = k")
    case True
    with ih Cons.prems show ?thesis by simp
  next
    case False
    then have "k \<le> n \<Longrightarrow> (r # act) ! (n - k) = act ! (n - Suc k)"
      by (simp add: nth_Cons')
    with ih False show ?thesis by auto
  qed
qed

lemma read_mt_loop_scan:
  assumes "buf i = Some rs" and "scan_limit i max_arg \<le> length rs"
  shows "j \<le> scan_limit i max_arg \<Longrightarrow>
     k + length (filter down_or_move (drop j (take (scan_limit i max_arg) rs))) \<le> length samp \<Longrightarrow>
     read_mt_loop i samp max_arg j k =
         Inr (store_samples samp k (filter down_or_move (drop j (take (scan_limit i max_arg) rs))),
              k + length (filter down_or_move (drop j (take (scan_limit i max_arg) rs))))"
proof (induction "scan_limit i max_arg - j" arbitrary: j k samp)
  case 0
  then have "\<not> j < scan_limit i max_arg" by simp
  moreover from 0 have "drop j (take (scan_limit i max_arg) rs) = []" by simp
  ultimately show ?case by (simp add: read_mt_loop_done)
next
  case (Suc d)
  let ?lim = "scan_limit i max_arg"
  let ?rest = "filter down_or_move (drop (Suc j) (take ?lim rs))"
  from Suc.hyps have jl: "j < ?lim" by simp
  with assms(2) have jr: "j < length rs" by simp
  from jl jr have dr: "drop j (take ?lim rs) = rs ! j # drop (Suc j) (take ?lim rs)"
    by (simp add: Cons_nth_drop_Suc [symmetric])
  from Suc.hyps have d: "d = ?lim - Suc j" by simp
  from jl have sj: "Suc j \<le> ?lim" by simp
  show ?case
  proof (cases "down_or_move (rs ! j)")
    case False
    with dr have f: "filter down_or_move (drop j (take ?lim rs)) = ?rest" by simp
    from Suc.prems(2) f have "k + length ?rest \<le> length samp" by simp
    from Suc.hyps(1) [OF d sj this]
    have "read_mt_loop i samp max_arg (Suc j) k = Inr (store_samples samp k ?rest, k + length ?rest)" .
    with False jl jr assms(1) show ?thesis
      unfolding f by (simp add: read_mt_loop_skip)
  next
    case True
    with dr have f: "filter down_or_move (drop j (take ?lim rs)) = rs ! j # ?rest" by simp
    let ?samp1 = "samp[k := normalise_mt (samp ! k) (rs ! j)]"
    from Suc.prems(2) f have kl: "k < length samp" and b: "Suc k + length ?rest \<le> length ?samp1"
      by simp_all
    from Suc.hyps(1) [OF d sj b]
    have "read_mt_loop i ?samp1 max_arg (Suc j) (Suc k) =
            Inr (store_samples ?samp1 (Suc k) ?rest, Suc k + length ?rest)" .
    with True jl jr kl assms(1) show ?thesis
      unfolding f by (simp add: read_mt_loop_emit)
  qed
qed



lemma buf_ok_scan:
  assumes "buf_ok i" and "buf i = Some rs"
  shows "scan_limit i max_arg \<le> length rs"
proof -
  from assms have c: "0 \<le> sint (max_slots i)" and l: "unat (max_slots i) \<le> length rs"
    by (simp_all add: buf_ok_def)
  have "scan_limit i max_arg \<le> nat (sint (max_slots i))" by (simp add: scan_limit_def)
  also from c have "\<dots> = unat (max_slots i)" by (rule nat_sint_unat)
  finally show ?thesis using l by simp
qed

lemma read_mt_scanned:
  assumes "buf_ok i"
    and "length (filter down_or_move (scanned i max_arg)) \<le> length samp"
  shows "ts_mswin_input_read_mt i samp max_arg n =
           Inr (store_samples samp 0 (filter down_or_move (scanned i max_arg)),
                length (filter down_or_move (scanned i max_arg)))"
proof (cases "buf i")
  case None
  with assms(1) have "max_slots i = 0" by (simp add: buf_ok_def)
  then have "scan_limit i max_arg = 0" by (simp add: scan_limit_def)
  then show ?thesis
    by (simp add: ts_mswin_input_read_mt_def read_mt_loop_done scanned_def)
next
  case (Some rs)
  from assms(1) Some have "scan_limit i max_arg \<le> length rs" by (rule buf_ok_scan)
  from read_mt_loop_scan [OF Some this, of 0 0 samp] assms(2) Some show ?thesis
    by (simp add: ts_mswin_input_read_mt_def scanned_def)
qed

text \<open>
  C6. On a state that satisfies the allocation invariant and a caller's array that has
  room for the emitted samples, the multi-point read emits exactly the visited records
  that are down or moving: \<open>filter\<close> keeps those records, in the order of the batch,
  and drops every record with neither flag, at any position. The count is their
  number, sample \<open>m\<close> of the output is the \<open>m\<close>-th such record, stored at slot
  \<open>m\<close>, and the slots from the count on are as the caller left them.
\<close>

theorem multi_read_contract:
  assumes "buf_ok i"
    and "length (filter down_or_move (scanned i max_arg)) \<le> length samp"
  shows "\<exists>samp'.
           ts_mswin_input_read_mt i samp max_arg n =
             Inr (samp', length (filter down_or_move (scanned i max_arg)))
         \<and> length samp' = length samp
         \<and> (\<forall>m < length (filter down_or_move (scanned i max_arg)).
               samp' ! m = normalise_mt (samp ! m) (filter down_or_move (scanned i max_arg) ! m))
         \<and> (\<forall>m. length (filter down_or_move (scanned i max_arg)) \<le> m \<and> m < length samp \<longrightarrow>
               samp' ! m = samp ! m)"
proof -
  let ?act = "filter down_or_move (scanned i max_arg)"
  have "ts_mswin_input_read_mt i samp max_arg n = Inr (store_samples samp 0 ?act, length ?act)"
    using assms by (rule read_mt_scanned)
  moreover have "length (store_samples samp 0 ?act) = length samp" by simp
  moreover have "\<forall>m < length ?act. store_samples samp 0 ?act ! m = normalise_mt (samp ! m) (?act ! m)"
    using assms(2) by (simp add: store_samples_nth)
  moreover have "\<forall>m. length ?act \<le> m \<and> m < length samp \<longrightarrow> store_samples samp 0 ?act ! m = samp ! m"
    using assms(2) by (simp add: store_samples_nth)
  ultimately show ?thesis by blast
qed

lemma scanned_scenario: "scanned scenario_input 5 = scenario_batch"
  by (simp add: scanned_def scan_limit_def scenario_input_def scenario_batch_def blank_input_def)

theorem multi_read_contract_witness:
  "buf_ok scenario_input
   \<and> length (filter down_or_move (scanned scenario_input 5)) \<le> length [stale_mt, stale_mt]
   \<and> filter down_or_move (scanned scenario_input 5) =
        [touch 10 20 TOUCHEVENTF_DOWN 1500, touch 50 60 TOUCHEVENTF_MOVE 1500]
   \<and> ts_mswin_input_read_mt scenario_input [stale_mt, stale_mt] 5 1 =
        Inr ([normalise_mt stale_mt (touch 10 20 TOUCHEVENTF_DOWN 1500),
              normalise_mt stale_mt (touch 50 60 TOUCHEVENTF_MOVE 1500)], 2)"
proof -
  have h: "buf_ok scenario_input"
    by (simp add: buf_ok_def scenario_input_def scenario_batch_def blank_input_def)
  have f: "filter down_or_move (scanned scenario_input 5) =
        [touch 10 20 TOUCHEVENTF_DOWN 1500, touch 50 60 TOUCHEVENTF_MOVE 1500]"
    by (simp add: scanned_scenario scenario_batch_def touch_def down_or_move_def
        TOUCHEVENTF_DOWN_def TOUCHEVENTF_MOVE_def TOUCHEVENTF_UP_def)
  then have l: "length (filter down_or_move (scanned scenario_input 5)) \<le> length [stale_mt, stale_mt]"
    by simp
  from multi_read_contract [OF h l, of 1] obtain samp' where
    r: "ts_mswin_input_read_mt scenario_input [stale_mt, stale_mt] 5 1 = Inr (samp', 2)"
    and n: "length samp' = 2"
    and a: "\<forall>m < 2. samp' ! m = normalise_mt ([stale_mt, stale_mt] ! m)
             ([touch 10 20 TOUCHEVENTF_DOWN 1500, touch 50 60 TOUCHEVENTF_MOVE 1500] ! m)"
    unfolding f by auto
  from a have "samp' ! 0 = normalise_mt stale_mt (touch 10 20 TOUCHEVENTF_DOWN 1500)"
    and "samp' ! 1 = normalise_mt stale_mt (touch 50 60 TOUCHEVENTF_MOVE 1500)"
    by simp_all
  with n have "samp' = [normalise_mt stale_mt (touch 10 20 TOUCHEVENTF_DOWN 1500),
              normalise_mt stale_mt (touch 50 60 TOUCHEVENTF_MOVE 1500)]"
    by (cases samp'; cases "tl samp'") auto
  with r h l f show ?thesis by simp
qed

subsection \<open>Repeated multi-point reads\<close>

lemma read_mt_loop_returns:
  assumes "read_mt_loop i samp max_arg j k = Inr (samp', k')" and "k \<le> length samp"
  shows "\<exists>act. k' = k + length act \<and> k' \<le> length samp
           \<and> (\<forall>samp2. length samp2 = length samp \<longrightarrow>
                 read_mt_loop i samp2 max_arg j k = Inr (store_samples samp2 k act, k'))"
  using assms
proof (induction "scan_limit i max_arg - j" arbitrary: j k samp)
  case 0
  then have n: "\<not> j < scan_limit i max_arg" by simp
  with 0 have "k' = k" by (simp add: read_mt_loop_done)
  with n 0 have "k' = k + length ([] :: TOUCHINPUT list) \<and> k' \<le> length samp
           \<and> (\<forall>samp2. length samp2 = length samp \<longrightarrow>
                 read_mt_loop i samp2 max_arg j k = Inr (store_samples samp2 k [], k'))"
    by (simp add: read_mt_loop_done)
  then show ?case by blast
next
  case (Suc d)
  from Suc.hyps have jl: "j < scan_limit i max_arg" and d: "d = scan_limit i max_arg - Suc j"
    by simp_all
  from jl have c: "int j < sint max_arg \<and> int j < sint (max_slots i)" by (simp add: loop_cond)
  from Suc.prems(1) c obtain rs where rs: "buf i = Some rs" and jr: "j < length rs"
    by (subst (asm) read_mt_loop.simps) (auto split: option.splits if_splits)
  show ?case
  proof (cases "down_or_move (rs ! j)")
    case False
    with Suc.prems(1) jl rs jr
    have "read_mt_loop i samp max_arg (Suc j) k = Inr (samp', k')"
      by (simp add: read_mt_loop_skip)
    from Suc.hyps(1) [OF d this Suc.prems(2)] obtain act where
      a: "k' = k + length act" "k' \<le> length samp"
        "\<forall>samp2. length samp2 = length samp \<longrightarrow>
            read_mt_loop i samp2 max_arg (Suc j) k = Inr (store_samples samp2 k act, k')"
      by blast
    from a(3) False jl rs jr
    have "\<forall>samp2. length samp2 = length samp \<longrightarrow>
            read_mt_loop i samp2 max_arg j k = Inr (store_samples samp2 k act, k')"
      by (simp add: read_mt_loop_skip)
    with a(1,2) show ?thesis by blast
  next
    case True
    from Suc.prems(1) c rs jr True have kl: "k < length samp"
      by (subst (asm) read_mt_loop.simps) (auto split: if_splits)
    let ?samp1 = "samp[k := normalise_mt (samp ! k) (rs ! j)]"
    from Suc.prems(1) jl rs jr True kl
    have "read_mt_loop i ?samp1 max_arg (Suc j) (Suc k) = Inr (samp', k')"
      by (simp add: read_mt_loop_emit)
    moreover from kl have "Suc k \<le> length ?samp1" by simp
    ultimately obtain act where
      a: "k' = Suc k + length act" "k' \<le> length ?samp1"
        "\<forall>samp2. length samp2 = length ?samp1 \<longrightarrow>
            read_mt_loop i samp2 max_arg (Suc j) (Suc k) = Inr (store_samples samp2 (Suc k) act, k')"
      using Suc.hyps(1) [OF d] by blast
    have "\<forall>samp2. length samp2 = length samp \<longrightarrow>
            read_mt_loop i samp2 max_arg j k = Inr (store_samples samp2 k (rs ! j # act), k')"
    proof (intro allI impI)
      fix samp2 :: "ts_sample_mt list"
      assume l: "length samp2 = length samp"
      with kl have "k < length samp2" by simp
      with jl rs jr True
      have "read_mt_loop i samp2 max_arg j k =
              read_mt_loop i (samp2[k := normalise_mt (samp2 ! k) (rs ! j)]) max_arg (Suc j) (Suc k)"
        by (simp add: read_mt_loop_emit)
      with a(3) l show "read_mt_loop i samp2 max_arg j k = Inr (store_samples samp2 k (rs ! j # act), k')"
        by simp
    qed
    moreover from a(1) have "k' = k + length (rs ! j # act)" by simp
    moreover from a(2) have "k' \<le> length samp" by simp
    ultimately show ?thesis by blast
  qed
qed

lemma normalise_mt_twice: "normalise_mt (normalise_mt s r) r = normalise_mt s r"
  by (simp add: normalise_mt_def)

lemma written_normalise_mt: "written (normalise_mt s r) = written (normalise_mt s' r)"
  by (simp add: written_def normalise_mt_def)

lemma store_samples_twice:
  assumes "k + length act \<le> length samp"
  shows "store_samples (store_samples samp k act) k act = store_samples samp k act"
proof (rule nth_equalityI)
  show "length (store_samples (store_samples samp k act) k act) = length (store_samples samp k act)"
    by simp
next
  fix n assume "n < length (store_samples (store_samples samp k act) k act)"
  then have n: "n < length samp" by simp
  with assms show "store_samples (store_samples samp k act) k act ! n = store_samples samp k act ! n"
    by (simp add: store_samples_nth normalise_mt_twice)
qed

text \<open>
  C9. The read takes the adapter state and changes none of it, so a second call sees
  the state of the first. When a multi-point read returns, the same read on the array
  it has just filled returns the same count and leaves the array as it is; and on any
  other array of the same length it returns the same count and stores the same
  \<open>x\<close>, \<open>y\<close> and timestamp in every emitted slot.
\<close>

theorem multi_read_repeatable:
  assumes "ts_mswin_input_read_mt i samp max_arg n1 = Inr (samp', k)"
  shows "ts_mswin_input_read_mt i samp' max_arg n2 = Inr (samp', k)
       \<and> (\<forall>samp2. length samp2 = length samp \<longrightarrow>
            (\<exists>samp2'. ts_mswin_input_read_mt i samp2 max_arg n2 = Inr (samp2', k)
               \<and> (\<forall>m < k. written (samp2' ! m) = written (samp' ! m))))"
proof -
  from assms have "read_mt_loop i samp max_arg 0 0 = Inr (samp', k)"
    by (simp add: ts_mswin_input_read_mt_def)
  from read_mt_loop_returns [OF this] obtain act where
    k: "k = length act" and kl: "k \<le> length samp"
    and a: "\<forall>samp2. length samp2 = length samp \<longrightarrow>
                 read_mt_loop i samp2 max_arg 0 0 = Inr (store_samples samp2 0 act, k)"
    by auto
  from a assms have s: "samp' = store_samples samp 0 act"
    by (simp add: ts_mswin_input_read_mt_def)
  have "ts_mswin_input_read_mt i samp' max_arg n2 = Inr (samp', k)"
    using a s k kl by (simp add: ts_mswin_input_read_mt_def store_samples_twice)
  moreover have "\<forall>samp2. length samp2 = length samp \<longrightarrow>
            (\<exists>samp2'. ts_mswin_input_read_mt i samp2 max_arg n2 = Inr (samp2', k)
               \<and> (\<forall>m < k. written (samp2' ! m) = written (samp' ! m)))"
  proof (intro allI impI)
    fix samp2 :: "ts_sample_mt list"
    assume l: "length samp2 = length samp"
    with a have "ts_mswin_input_read_mt i samp2 max_arg n2 = Inr (store_samples samp2 0 act, k)"
      by (simp add: ts_mswin_input_read_mt_def)
    moreover have "\<forall>m < k. written (store_samples samp2 0 act ! m) = written (samp' ! m)"
      using l k kl s by (simp add: store_samples_nth written_normalise_mt [of "samp2 ! _" _ "samp ! _"])
    ultimately show "\<exists>samp2'. ts_mswin_input_read_mt i samp2 max_arg n2 = Inr (samp2', k)
               \<and> (\<forall>m < k. written (samp2' ! m) = written (samp' ! m))"
      by blast
  qed
  ultimately show ?thesis by blast
qed

theorem multi_read_repeatable_witness:
  "ts_mswin_input_read_mt scenario_input [stale_mt, stale_mt] 5 1 =
     Inr ([stale_mt\<lparr>mt_x := 10, mt_y := 20, mt_tv_usec := 1500000, mt_tv_sec := 1\<rparr>,
           stale_mt\<lparr>mt_x := 50, mt_y := 60, mt_tv_usec := 1500000, mt_tv_sec := 1\<rparr>], 2)
   \<and> ts_mswin_input_read_mt scenario_input
        [stale_mt\<lparr>mt_x := 10, mt_y := 20, mt_tv_usec := 1500000, mt_tv_sec := 1\<rparr>,
         stale_mt\<lparr>mt_x := 50, mt_y := 60, mt_tv_usec := 1500000, mt_tv_sec := 1\<rparr>] 5 1 =
     Inr ([stale_mt\<lparr>mt_x := 10, mt_y := 20, mt_tv_usec := 1500000, mt_tv_sec := 1\<rparr>,
           stale_mt\<lparr>mt_x := 50, mt_y := 60, mt_tv_usec := 1500000, mt_tv_sec := 1\<rparr>], 2)"
proof -
  have h: "ts_mswin_input_read_mt scenario_input [stale_mt, stale_mt] 5 1 =
     Inr ([stale_mt\<lparr>mt_x := 10, mt_y := 20, mt_tv_usec := 1500000, mt_tv_sec := 1\<rparr>,
           stale_mt\<lparr>mt_x := 50, mt_y := 60, mt_tv_usec := 1500000, mt_tv_sec := 1\<rparr>], 2)"
    by (simp add: ts_mswin_input_read_mt_def read_mt_loop.simps scenario_input_def
        scenario_batch_def blank_input_def touch_def down_or_move_def
        TOUCHEVENTF_DOWN_def TOUCHEVENTF_MOVE_def TOUCHEVENTF_UP_def)
  show ?thesis
    using h multi_read_repeatable [OF h, of 1] by simp
qed

subsection \<open>The message handler, step by step\<close>

lemma memset_zero_Inr:
  "memset_zero p len = Inr p' \<longleftrightarrow>
     (p = None \<and> len = 0 \<and> p' = None)
   \<or> (\<exists>rs. p = Some rs \<and> len \<le> length rs \<and> p' = Some (replicate len zero_touch @ drop len rs))"
  by (auto simp: memset_zero_def split: option.splits)

lemma length_unpacked: "length (unpacked env c) \<le> unat c"
  by (simp add: unpacked_def)

lemma GetTouchInputInfo_Inr:
  "GetTouchInputInfo env c p = Inr (ok, p') \<longleftrightarrow>
     ok = touch_ok env \<and>
     ((p = None \<and> unpacked env c = [] \<and> p' = None)
      \<or> (\<exists>rs. p = Some rs \<and> length (unpacked env c) \<le> length rs
            \<and> p' = Some (unpacked env c @ drop (length (unpacked env c)) rs)))"
  by (auto simp: GetTouchInputInfo_def unpacked_def Let_def split: option.splits)

lemma wndproc_other:
  "uMsg m \<noteq> WM_TOUCH \<Longrightarrow> tslibWndProc i env m = forward i env m"
  by (simp add: tslibWndProc_def)

lemma wndproc_no_memory:
  "uMsg m = WM_TOUCH \<Longrightarrow> max_slots i < contact_count m \<Longrightarrow> \<not> malloc_ok env \<Longrightarrow>
     tslibWndProc i env m = forward (i\<lparr>buf := None\<rparr>) env m"
  by (simp add: tslibWndProc_def contact_count_def)

lemma wndproc_touch:
  assumes "uMsg m = WM_TOUCH" and "max_slots i < contact_count m \<longrightarrow> malloc_ok env"
  shows "tslibWndProc i env m =
     (case memset_zero (buf (grown i (contact_count m)))
             (unat (scast (max_slots (grown i (contact_count m))) :: size_t)) of
        Inl f \<Rightarrow> Inl f
      | Inr p \<Rightarrow>
          (case GetTouchInputInfo env (contact_count m) p of
             Inl f \<Rightarrow> Inl f
           | Inr (handled, p') \<Rightarrow>
               if handled
               then Inr ((grown i (contact_count m))\<lparr>buf := p'\<rparr>,
                         CloseTouchInputHandle (lParam m), 0)
               else forward ((grown i (contact_count m))\<lparr>buf := p'\<rparr>) env m))"
proof -
  from assms(2) have "\<not> (max_slots i < ucast (wParam m) \<and> \<not> malloc_ok env)"
    by (simp add: contact_count_def)
  with assms(1) show ?thesis
    unfolding tslibWndProc_def Let_def contact_count_def grown_def by simp
qed

lemma wndproc_touch_Inr:
  assumes "tslibWndProc i env m = Inr (i', e, r)" and "uMsg m = WM_TOUCH"
    and "max_slots i < contact_count m \<longrightarrow> malloc_ok env"
  shows "\<exists>p p'.
           memset_zero (buf (grown i (contact_count m)))
             (unat (scast (max_slots (grown i (contact_count m))) :: size_t)) = Inr p
         \<and> GetTouchInputInfo env (contact_count m) p = Inr (touch_ok env, p')
         \<and> i' = (grown i (contact_count m))\<lparr>buf := p'\<rparr>
         \<and> (e, r) = (if touch_ok env then (CloseTouchInputHandle (lParam m), 0)
                      else (CallWindowProc (prevWndProc i) (hwnd m) (uMsg m) (wParam m) (lParam m),
                            prev_result env))"
proof -
  let ?g = "grown i (contact_count m)"
  have pw: "prevWndProc ?g = prevWndProc i" by (simp add: grown_def)
  from assms have a: "(case memset_zero (buf ?g) (unat (scast (max_slots ?g) :: size_t)) of
        Inl f \<Rightarrow> Inl f
      | Inr p \<Rightarrow>
          (case GetTouchInputInfo env (contact_count m) p of
             Inl f \<Rightarrow> Inl f
           | Inr (handled, p') \<Rightarrow>
               if handled
               then Inr (?g\<lparr>buf := p'\<rparr>, CloseTouchInputHandle (lParam m), 0)
               else forward (?g\<lparr>buf := p'\<rparr>) env m)) = Inr (i', e, r)"
    by (simp only: wndproc_touch)
  then obtain p where p: "memset_zero (buf ?g) (unat (scast (max_slots ?g) :: size_t)) = Inr p"
    by (cases "memset_zero (buf ?g) (unat (scast (max_slots ?g) :: size_t))") auto
  with a obtain ok p' where g: "GetTouchInputInfo env (contact_count m) p = Inr (ok, p')"
    by (cases "GetTouchInputInfo env (contact_count m) p") auto
  then have ok: "ok = touch_ok env" by (simp add: GetTouchInputInfo_Inr)
  from a p g ok pw have "i' = ?g\<lparr>buf := p'\<rparr>"
    and "(e, r) = (if touch_ok env then (CloseTouchInputHandle (lParam m), 0)
                      else (CallWindowProc (prevWndProc i) (hwnd m) (uMsg m) (wParam m) (lParam m),
                            prev_result env))"
    by (auto simp: forward_def split: if_splits)
  with p g ok show ?thesis by blast
qed


lemma grown_capacity:
  "unat (max_slots i) \<le> unat (max_slots (grown i c))"
  "unat c \<le> unat (max_slots (grown i c))"
  by (auto simp: grown_def word_less_nat_alt)

lemma grown_prev [simp]: "prevWndProc (grown i c) = prevWndProc i"
  by (simp add: grown_def)

lemma memset_len_nonneg:
  assumes "memset_zero (buf (grown i c)) (unat (scast (max_slots (grown i c)) :: size_t)) = Inr p"
    and "0 \<le> sint (max_slots i)"
  shows "0 \<le> sint (max_slots (grown i c))"
proof (cases "max_slots i < c")
  case False
  with assms(2) show ?thesis by (simp add: grown_def)
next
  case True
  then have g: "buf (grown i c) = Some (replicate (unat c) zero_touch)" "max_slots (grown i c) = c"
    by (simp_all add: grown_def)
  with assms(1) have "unat (scast c :: size_t) \<le> unat c"
    by (simp add: memset_zero_Inr)
  then have "\<not> sint c < 0" using unat_scast_neg [of c] by linarith
  with g show ?thesis by simp
qed

lemma capacity_step:
  assumes "tslibWndProc i env m = Inr (i', e, r)"
  shows "unat (max_slots i) \<le> unat (max_slots i')"
    and "was_handled e \<longrightarrow> uMsg m = WM_TOUCH \<and> unat (contact_count m) \<le> unat (max_slots i')"
    and "0 \<le> sint (max_slots i) \<longrightarrow> 0 \<le> sint (max_slots i')"
proof -
  have "unat (max_slots i) \<le> unat (max_slots i')
      \<and> (was_handled e \<longrightarrow> uMsg m = WM_TOUCH \<and> unat (contact_count m) \<le> unat (max_slots i'))
      \<and> (0 \<le> sint (max_slots i) \<longrightarrow> 0 \<le> sint (max_slots i'))"
  proof (cases "uMsg m = WM_TOUCH")
    case False
    with assms show ?thesis by (auto simp: wndproc_other forward_def was_handled_def)
  next
    case t: True
    show ?thesis
    proof (cases "max_slots i < contact_count m \<longrightarrow> malloc_ok env")
      case False
      with assms t show ?thesis by (auto simp: wndproc_no_memory forward_def was_handled_def)
    next
      case True
      from wndproc_touch_Inr [OF assms t True] obtain p p' where
        ms: "memset_zero (buf (grown i (contact_count m)))
               (unat (scast (max_slots (grown i (contact_count m))) :: size_t)) = Inr p"
        and i': "i' = (grown i (contact_count m))\<lparr>buf := p'\<rparr>"
        by blast
      from i' have c: "max_slots i' = max_slots (grown i (contact_count m))" by simp
      from memset_len_nonneg [OF ms]
      have "0 \<le> sint (max_slots i) \<longrightarrow> 0 \<le> sint (max_slots i')" by (simp add: c)
      with t show ?thesis by (simp add: c grown_capacity)
    qed
  qed
  then show "unat (max_slots i) \<le> unat (max_slots i')"
    and "was_handled e \<longrightarrow> uMsg m = WM_TOUCH \<and> unat (contact_count m) \<le> unat (max_slots i')"
    and "0 \<le> sint (max_slots i) \<longrightarrow> 0 \<le> sint (max_slots i')"
    by simp_all
qed

lemma overlay_zero:
  assumes "length w \<le> j" and "j < n"
  shows "(w @ drop (length w) (replicate n z @ rest)) ! j = z"
proof -
  from assms(1) have "(w @ drop (length w) (replicate n z @ rest)) ! j =
      drop (length w) (replicate n z @ rest) ! (j - length w)"
    by (simp add: nth_append)
  also from assms have "\<dots> = (replicate n z @ rest) ! (length w + (j - length w))"
    by (intro nth_drop) simp
  also from assms(1) have "\<dots> = (replicate n z @ rest) ! j" by simp
  also from assms(2) have "\<dots> = z" by (simp add: nth_append)
  finally show ?thesis .
qed

lemma handled_post:
  assumes "tslibWndProc i env m = Inr (i', e, r)" and "was_handled e"
    and "0 \<le> sint (max_slots i')"
  shows "buf_ok i'"
    and "buf i' = Some rs \<Longrightarrow> unat (contact_count m) \<le> j \<Longrightarrow> j < unat (max_slots i') \<Longrightarrow>
           rs ! j = zero_touch"
proof -
  let ?c = "contact_count m"
  let ?g = "grown i ?c"
  from assms(1,2) have t: "uMsg m = WM_TOUCH"
    by (cases "uMsg m = WM_TOUCH") (auto simp: wndproc_other forward_def was_handled_def)
  from assms(1,2) t have mo: "max_slots i < ?c \<longrightarrow> malloc_ok env"
    by (cases "max_slots i < ?c \<longrightarrow> malloc_ok env")
       (auto simp: wndproc_no_memory forward_def was_handled_def)
  from wndproc_touch_Inr [OF assms(1) t mo] obtain p p' where
    ms: "memset_zero (buf ?g) (unat (scast (max_slots ?g) :: size_t)) = Inr p"
    and gt: "GetTouchInputInfo env ?c p = Inr (touch_ok env, p')"
    and i': "i' = ?g\<lparr>buf := p'\<rparr>"
    by blast
  from assms(3) i' have nn: "0 \<le> sint (max_slots ?g)" by simp
  then have len: "unat (scast (max_slots ?g) :: size_t) = unat (max_slots ?g)"
    by (rule unat_scast_nonneg)
  let ?w = "unpacked env ?c"
  let ?n = "unat (max_slots ?g)"
  have wl: "length ?w \<le> ?n"
    using grown_capacity(2) [of ?c i] length_unpacked [of env ?c] by linarith
  show "buf_ok i'"
  proof (cases "buf ?g")
    case None
    with ms len have "?n = 0" "p = None" by (simp_all add: memset_zero_Inr)
    with gt have "p' = None" by (simp add: GetTouchInputInfo_Inr)
    with i' \<open>?n = 0\<close> show ?thesis by (simp add: buf_ok_def unat_eq_0)
  next
    case (Some rs0)
    with ms len have l: "?n \<le> length rs0"
      and p: "p = Some (replicate ?n zero_touch @ drop ?n rs0)"
      by (simp_all add: memset_zero_Inr)
    from gt p have "p' = Some (?w @ drop (length ?w) (replicate ?n zero_touch @ drop ?n rs0))"
      by (simp add: GetTouchInputInfo_Inr)
    with i' nn l wl show ?thesis by (simp add: buf_ok_def)
  qed
  assume b: "buf i' = Some rs" and j: "unat ?c \<le> j" "j < unat (max_slots i')"
  from i' b have p': "p' = Some rs" by simp
  from i' j have jn: "j < ?n" by simp
  show "rs ! j = zero_touch"
  proof (cases "buf ?g")
    case None
    with ms have "p = None" by (simp add: memset_zero_Inr)
    with gt p' show ?thesis by (simp add: GetTouchInputInfo_Inr)
  next
    case (Some rs0)
    with ms len have l: "?n \<le> length rs0"
      and p: "p = Some (replicate ?n zero_touch @ drop ?n rs0)"
      by (simp_all add: memset_zero_Inr)
    from gt p p' have rs: "rs = ?w @ drop (length ?w) (replicate ?n zero_touch @ drop ?n rs0)"
      by (simp add: GetTouchInputInfo_Inr)
    have lw: "length ?w \<le> j" using j(1) length_unpacked [of env ?c] by linarith
    from lw jn show ?thesis unfolding rs by (rule overlay_zero)
  qed
qed

lemma wndproc_returns:
  assumes "buf_ok i" and "0 \<le> sint (contact_count m)"
    and "uMsg m = WM_TOUCH" and "max_slots i < contact_count m \<longrightarrow> malloc_ok env"
  shows "\<exists>p p'. memset_zero (buf (grown i (contact_count m)))
             (unat (scast (max_slots (grown i (contact_count m))) :: size_t)) = Inr p
         \<and> GetTouchInputInfo env (contact_count m) p = Inr (touch_ok env, p')"
proof -
  let ?c = "contact_count m"
  let ?g = "grown i ?c"
  let ?w = "unpacked env ?c"
  let ?n = "unat (max_slots ?g)"
  have nn: "0 \<le> sint (max_slots ?g)"
  proof (cases "max_slots i < ?c")
    case True
    with assms(2) show ?thesis by (simp add: grown_def)
  next
    case False
    with assms(1) show ?thesis by (auto simp: grown_def buf_ok_def split: option.splits)
  qed
  then have len: "unat (scast (max_slots ?g) :: size_t) = ?n" by (rule unat_scast_nonneg)
  have wl: "length ?w \<le> ?n"
    using grown_capacity(2) [of ?c i] length_unpacked [of env ?c] by linarith
  show ?thesis
  proof (cases "buf ?g")
    case None
    then have ng: "\<not> max_slots i < ?c" by (auto simp: grown_def split: if_splits)
    with None assms(1) have "?n = 0" by (simp add: grown_def buf_ok_def)
    with wl have "?w = []" by simp
    with None len \<open>?n = 0\<close> show ?thesis
      by (simp add: memset_zero_Inr GetTouchInputInfo_Inr)
  next
    case (Some rs0)
    have "?n \<le> length rs0"
    proof (cases "max_slots i < ?c")
      case True
      with Some show ?thesis by (auto simp: grown_def)
    next
      case False
      with Some assms(1) show ?thesis by (simp add: grown_def buf_ok_def)
    qed
    with Some len wl show ?thesis
      by (simp add: memset_zero_Inr GetTouchInputInfo_Inr)
  qed
qed


lemmas handler_eval = tslibWndProc_def forward_def memset_zero_def GetTouchInputInfo_def
  blank_input_def WM_TOUCH_def

subsection \<open>Reads after a handled batch\<close>

lemma zero_touch_idle: "\<not> down_or_move zero_touch"
  by (simp add: down_or_move_def zero_touch_def)

lemma filter_prefix:
  assumes "\<And>j. n \<le> j \<Longrightarrow> j < length xs \<Longrightarrow> \<not> P (xs ! j)"
  shows "length (filter P xs) \<le> n"
proof -
  have "filter P (drop n xs) = []"
  proof (rule filter_False, rule ballI)
    fix x assume "x \<in> set (drop n xs)"
    then obtain k where k: "k < length (drop n xs)" "x = drop n xs ! k"
      by (auto simp: in_set_conv_nth)
    then have "x = xs ! (n + k)" and "n + k < length xs" by auto
    with assms [of "n + k"] show "\<not> P x" by simp
  qed
  moreover have "filter P xs = filter P (take n xs) @ filter P (drop n xs)"
    by (metis append_take_drop_id filter_append)
  ultimately have "length (filter P xs) = length (filter P (take n xs))" by simp
  also have "\<dots> \<le> length (take n xs)" by (rule length_filter_le)
  also have "\<dots> \<le> n" by simp
  finally show ?thesis .
qed

text \<open>
  C4. After the handler has handled a batch touch message of \<open>n\<close> contacts, a
  multi-point read with a non-negative slot count \<open>max_arg\<close> into an array of at
  least that many slots returns, and its count is at most \<open>min(max_arg, n)\<close>: the
  records beyond the batch were zeroed on line 165 and are neither down nor moving,
  also when \<open>n\<close> is below the capacity.
\<close>

theorem read_after_batch_bounded:
  assumes "tslibWndProc i env m = Inr (i', e, r)" and "was_handled e"
    and "0 \<le> sint max_arg" and "nat (sint max_arg) \<le> length samp"
  shows "\<exists>samp' k. ts_mswin_input_read_mt i' samp max_arg n = Inr (samp', k)
           \<and> int k \<le> min (sint max_arg) (int (unat (contact_count m)))"
proof (cases "0 \<le> sint (max_slots i')")
  case False
  then have "scan_limit i' max_arg = 0" by (simp add: scan_limit_def)
  then have "ts_mswin_input_read_mt i' samp max_arg n = Inr (samp, 0)"
    by (simp add: ts_mswin_input_read_mt_def read_mt_loop_done)
  moreover from assms(3) have "int 0 \<le> min (sint max_arg) (int (unat (contact_count m)))"
    by simp
  ultimately show ?thesis by blast
next
  case nn: True
  let ?act = "filter down_or_move (scanned i' max_arg)"
  from assms(1,2) nn have ok: "buf_ok i'" by (rule handled_post(1))
  have lim: "length (scanned i' max_arg) \<le> scan_limit i' max_arg"
    by (simp add: scanned_def)
  have lm: "scan_limit i' max_arg \<le> nat (sint max_arg)" by (simp add: scan_limit_def)
  have "length ?act \<le> length (scanned i' max_arg)" by (rule length_filter_le)
  with lim lm have a1: "length ?act \<le> nat (sint max_arg)" by linarith
  have a2: "length ?act \<le> unat (contact_count m)"
  proof (rule filter_prefix)
    fix j assume j: "unat (contact_count m) \<le> j" "j < length (scanned i' max_arg)"
    then obtain rs where rs: "buf i' = Some rs"
      by (cases "buf i'") (auto simp: scanned_def)
    from j(2) lim have "j < scan_limit i' max_arg" by linarith
    then have "j < nat (sint (max_slots i'))" by (simp add: scan_limit_def)
    with nn have "j < unat (max_slots i')" by (simp add: nat_sint_unat)
    with assms(1,2) nn rs j(1) have "rs ! j = zero_touch" by (rule handled_post(2))
    moreover from j(2) rs have "scanned i' max_arg ! j = rs ! j" by (simp add: scanned_def)
    ultimately show "\<not> down_or_move (scanned i' max_arg ! j)" by (simp add: zero_touch_idle)
  qed
  from a1 assms(4) have "length ?act \<le> length samp" by linarith
  with ok have "ts_mswin_input_read_mt i' samp max_arg n =
      Inr (store_samples samp 0 ?act, length ?act)"
    by (rule read_mt_scanned)
  moreover from a1 a2 assms(3)
  have "int (length ?act) \<le> min (sint max_arg) (int (unat (contact_count m)))"
    by linarith
  ultimately show ?thesis by blast
qed

theorem read_after_batch_bounded_witness:
  "tslibWndProc five_contact_input empty_batch zero_contact_msg =
     Inr (five_contact_input\<lparr>buf := Some (replicate 5 zero_touch)\<rparr>, CloseTouchInputHandle 5, 0)
   \<and> was_handled (CloseTouchInputHandle 5)
   \<and> (0::int) \<le> sint (5 :: c_int)
   \<and> nat (sint (5 :: c_int)) \<le> length [stale_mt, stale_mt, stale_mt, stale_mt, stale_mt]
   \<and> contact_count zero_contact_msg = 0
   \<and> ts_mswin_input_read_mt (five_contact_input\<lparr>buf := Some (replicate 5 zero_touch)\<rparr>)
        [stale_mt, stale_mt, stale_mt, stale_mt, stale_mt] 5 1 =
      Inr ([stale_mt, stale_mt, stale_mt, stale_mt, stale_mt], 0)"
proof -
  have h: "tslibWndProc five_contact_input empty_batch zero_contact_msg =
     Inr (five_contact_input\<lparr>buf := Some (replicate 5 zero_touch)\<rparr>, CloseTouchInputHandle 5, 0)"
    by (simp add: handler_eval zero_contact_msg_def empty_batch_def five_contact_input_def)
  have w: "was_handled (CloseTouchInputHandle 5)" by (simp add: was_handled_def)
  have m: "(0::int) \<le> sint (5 :: c_int)" by simp
  have l: "nat (sint (5 :: c_int)) \<le> length [stale_mt, stale_mt, stale_mt, stale_mt, stale_mt]"
    by simp
  have z: "contact_count zero_contact_msg = 0"
    by (simp add: contact_count_def zero_contact_msg_def)
  have r: "ts_mswin_input_read_mt (five_contact_input\<lparr>buf := Some (replicate 5 zero_touch)\<rparr>)
        [stale_mt, stale_mt, stale_mt, stale_mt, stale_mt] 5 1 =
      Inr ([stale_mt, stale_mt, stale_mt, stale_mt, stale_mt], 0)"
    by (simp add: ts_mswin_input_read_mt_def read_mt_loop.simps five_contact_input_def
        blank_input_def zero_touch_idle)
  show ?thesis
    using h w m l z r read_after_batch_bounded [OF h w m l, of 1] by simp
qed

subsection \<open>Capacity over a run of messages\<close>

lemma deliver_trace:
  assumes "deliver i ms = Inr tr"
  shows "length tr = length ms
       \<and> sorted (map (\<lambda>s. unat (max_slots s)) (i # map fst tr))
       \<and> (\<forall>a < length tr. was_handled (snd (tr ! a)) \<longrightarrow>
             unat (contact_count (snd (ms ! a))) \<le> unat (max_slots (fst (tr ! a))))
       \<and> (0 \<le> sint (max_slots i) \<longrightarrow> (\<forall>s \<in> set (map fst tr). 0 \<le> sint (max_slots s)))"
  using assms
proof (induction ms arbitrary: i tr)
  case Nil
  then show ?case by simp
next
  case (Cons em ms)
  obtain env m where em: "em = (env, m)" by (cases em) auto
  from Cons.prems em obtain i1 e r where
    st: "tslibWndProc i env m = Inr (i1, e, r)"
    by (cases "tslibWndProc i env m") (auto split: sum.splits)
  with Cons.prems em obtain tr1 where
    d: "deliver i1 ms = Inr tr1" and tr: "tr = (i1, e) # tr1"
    by (cases "deliver i1 ms") auto
  from Cons.IH [OF d] have ih:
    "length tr1 = length ms"
    "sorted (map (\<lambda>s. unat (max_slots s)) (i1 # map fst tr1))"
    "\<forall>a < length tr1. was_handled (snd (tr1 ! a)) \<longrightarrow>
        unat (contact_count (snd (ms ! a))) \<le> unat (max_slots (fst (tr1 ! a)))"
    "0 \<le> sint (max_slots i1) \<longrightarrow> (\<forall>s \<in> set (map fst tr1). 0 \<le> sint (max_slots s))"
    by simp_all
  note cs = capacity_step [OF st]
  have "length tr = length (em # ms)" using ih(1) tr by simp
  moreover have "sorted (map (\<lambda>s. unat (max_slots s)) (i # map fst tr))"
    using ih(2) cs(1) tr by (auto intro: order_trans)
  moreover have "\<forall>a < length tr. was_handled (snd (tr ! a)) \<longrightarrow>
        unat (contact_count (snd ((em # ms) ! a))) \<le> unat (max_slots (fst (tr ! a)))"
  proof (intro allI impI)
    fix a assume a: "a < length tr" "was_handled (snd (tr ! a))"
    show "unat (contact_count (snd ((em # ms) ! a))) \<le> unat (max_slots (fst (tr ! a)))"
    proof (cases a)
      case 0
      with a cs(2) tr em show ?thesis by simp
    next
      case (Suc a')
      with a ih(3) tr show ?thesis by simp
    qed
  qed
  moreover have "0 \<le> sint (max_slots i) \<longrightarrow> (\<forall>s \<in> set (map fst tr). 0 \<le> sint (max_slots s))"
    using ih(4) cs(3) tr by simp
  ultimately show ?case by blast
qed

text \<open>
  C7. Along every run of messages that the handler survives, whatever \<open>malloc\<close> and
  the platform answer, the capacities of the states before and after each message
  form a non-decreasing sequence, and after a handled batch the capacity is at least
  that batch's contact count, then and at every later message. The capacity is read
  as line 155 compares it, unsigned; a capacity that starts non-negative stays
  non-negative, so that both readings agree.
\<close>

theorem capacity_never_shrinks:
  assumes "deliver i ms = Inr tr"
  shows "length tr = length ms
       \<and> sorted (map (\<lambda>s. unat (max_slots s)) (i # map fst tr))
       \<and> (\<forall>a b. a \<le> b \<and> b < length tr \<and> was_handled (snd (tr ! a)) \<longrightarrow>
             unat (contact_count (snd (ms ! a))) \<le> unat (max_slots (fst (tr ! b))))
       \<and> (0 \<le> sint (max_slots i) \<longrightarrow> (\<forall>s \<in> set (map fst tr). 0 \<le> sint (max_slots s)))"
proof -
  note t = deliver_trace [OF assms]
  from t have srt: "sorted (map (\<lambda>s. unat (max_slots s)) (map fst tr))" by simp
  have "\<forall>a b. a \<le> b \<and> b < length tr \<and> was_handled (snd (tr ! a)) \<longrightarrow>
             unat (contact_count (snd (ms ! a))) \<le> unat (max_slots (fst (tr ! b)))"
  proof (intro allI impI)
    fix a b assume ab: "a \<le> b \<and> b < length tr \<and> was_handled (snd (tr ! a))"
    then have "a < length tr" by simp
    with t ab have "unat (contact_count (snd (ms ! a))) \<le> unat (max_slots (fst (tr ! a)))"
      by blast
    also from srt ab have "\<dots> \<le> unat (max_slots (fst (tr ! b)))"
      using sorted_nth_mono [of "map (\<lambda>s. unat (max_slots s)) (map fst tr)" a b] by simp
    finally show "unat (contact_count (snd (ms ! a))) \<le> unat (max_slots (fst (tr ! b)))" .
  qed
  with t show ?thesis by blast
qed


theorem capacity_never_shrinks_witness:
  "deliver blank_input
     [(scenario_platform, three_contact_msg), (out_of_memory, ten_contact_msg),
      (scenario_platform, ten_contact_msg)] =
   Inr [(scenario_input, CloseTouchInputHandle 5),
        (scenario_input\<lparr>buf := None\<rparr>, CallWindowProc (Host_WndProc 0) 1 WM_TOUCH 10 5),
        (blank_input\<lparr>buf := Some (scenario_batch @ replicate 7 zero_touch), max_slots := 10\<rparr>,
         CloseTouchInputHandle 5)]
   \<and> sorted (map (\<lambda>s. unat (max_slots s))
        [blank_input, scenario_input, scenario_input\<lparr>buf := None\<rparr>,
         blank_input\<lparr>buf := Some (scenario_batch @ replicate 7 zero_touch), max_slots := 10\<rparr>])
   \<and> map (\<lambda>s. unat (max_slots s))
        [blank_input, scenario_input, scenario_input\<lparr>buf := None\<rparr>,
         blank_input\<lparr>buf := Some (scenario_batch @ replicate 7 zero_touch), max_slots := 10\<rparr>] =
       [0, 3, 3, 10]"
proof -
  have h: "deliver blank_input
     [(scenario_platform, three_contact_msg), (out_of_memory, ten_contact_msg),
      (scenario_platform, ten_contact_msg)] =
   Inr [(scenario_input, CloseTouchInputHandle 5),
        (scenario_input\<lparr>buf := None\<rparr>, CallWindowProc (Host_WndProc 0) 1 WM_TOUCH 10 5),
        (blank_input\<lparr>buf := Some (scenario_batch @ replicate 7 zero_touch), max_slots := 10\<rparr>,
         CloseTouchInputHandle 5)]"
    by (simp add: handler_eval three_contact_msg_def ten_contact_msg_def scenario_platform_def
        out_of_memory_def scenario_input_def scenario_batch_def)
  have v: "map (\<lambda>s. unat (max_slots s))
        [blank_input, scenario_input, scenario_input\<lparr>buf := None\<rparr>,
         blank_input\<lparr>buf := Some (scenario_batch @ replicate 7 zero_touch), max_slots := 10\<rparr>] =
       [0, 3, 3, 10]"
    by (simp add: blank_input_def scenario_input_def)
  show ?thesis
    using h v capacity_never_shrinks [OF h] by simp
qed

subsection \<open>Forwarding\<close>

text \<open>
  C8. A message that is not the batch touch message is forwarded as it came to the
  previous handler and that handler's result is returned, with the state unchanged.
  A batch touch message whose buffer growth fails is forwarded in the same way, with
  the buffer pointer \<open>NULL\<close> afterwards. A batch touch message that
  gets its buffer, on a state that satisfies the allocation invariant and with a
  contact count that fits \<open>int\<close>, is forwarded in the same way when unpacking fails;
  when unpacking succeeds the batch handle is closed, nothing is forwarded and 0 is
  returned. And on every state, whenever the handler returns, it has closed the batch
  handle and returned 0 if the message was a batch touch message that got its buffer
  and was unpacked, and has forwarded the message and returned the previous handler's
  result otherwise.
\<close>

theorem message_forwarded_or_handled:
  "(uMsg m \<noteq> WM_TOUCH \<longrightarrow>
      tslibWndProc i env m =
        Inr (i, CallWindowProc (prevWndProc i) (hwnd m) (uMsg m) (wParam m) (lParam m),
             prev_result env))
   \<and> (uMsg m = WM_TOUCH \<and> max_slots i < contact_count m \<and> \<not> malloc_ok env \<longrightarrow>
      tslibWndProc i env m =
        Inr (i\<lparr>buf := None\<rparr>,
             CallWindowProc (prevWndProc i) (hwnd m) (uMsg m) (wParam m) (lParam m),
             prev_result env))
   \<and> (uMsg m = WM_TOUCH \<and> (max_slots i < contact_count m \<longrightarrow> malloc_ok env)
        \<and> buf_ok i \<and> 0 \<le> sint (contact_count m) \<longrightarrow>
      (\<exists>i'. tslibWndProc i env m =
         Inr (i',
              if touch_ok env then CloseTouchInputHandle (lParam m)
              else CallWindowProc (prevWndProc i) (hwnd m) (uMsg m) (wParam m) (lParam m),
              if touch_ok env then 0 else prev_result env)))
   \<and> (\<forall>i' e r. tslibWndProc i env m = Inr (i', e, r) \<longrightarrow>
        (e, r) =
          (if uMsg m = WM_TOUCH \<and> (max_slots i < contact_count m \<longrightarrow> malloc_ok env)
                \<and> touch_ok env
           then (CloseTouchInputHandle (lParam m), 0)
           else (CallWindowProc (prevWndProc i) (hwnd m) (uMsg m) (wParam m) (lParam m),
                 prev_result env)))"
proof (intro conjI impI allI)
  fix i' e r
  assume ret: "tslibWndProc i env m = Inr (i', e, r)"
  show "(e, r) =
          (if uMsg m = WM_TOUCH \<and> (max_slots i < contact_count m \<longrightarrow> malloc_ok env)
                \<and> touch_ok env
           then (CloseTouchInputHandle (lParam m), 0)
           else (CallWindowProc (prevWndProc i) (hwnd m) (uMsg m) (wParam m) (lParam m),
                 prev_result env))"
  proof (cases "uMsg m = WM_TOUCH")
    case False
    with ret show ?thesis by (auto simp: wndproc_other forward_def)
  next
    case t: True
    show ?thesis
    proof (cases "max_slots i < contact_count m \<longrightarrow> malloc_ok env")
      case False
      with ret t show ?thesis by (auto simp: wndproc_no_memory forward_def)
    next
      case True
      from wndproc_touch_Inr [OF ret t True] t True show ?thesis by auto
    qed
  qed
next
  assume "uMsg m \<noteq> WM_TOUCH"
  then show "tslibWndProc i env m =
        Inr (i, CallWindowProc (prevWndProc i) (hwnd m) (uMsg m) (wParam m) (lParam m),
             prev_result env)"
    by (simp add: wndproc_other forward_def)
next
  assume "uMsg m = WM_TOUCH \<and> max_slots i < contact_count m \<and> \<not> malloc_ok env"
  then show "tslibWndProc i env m =
        Inr (i\<lparr>buf := None\<rparr>,
             CallWindowProc (prevWndProc i) (hwnd m) (uMsg m) (wParam m) (lParam m),
             prev_result env)"
    by (simp add: wndproc_no_memory forward_def)
next
  assume a: "uMsg m = WM_TOUCH \<and> (max_slots i < contact_count m \<longrightarrow> malloc_ok env)
        \<and> buf_ok i \<and> 0 \<le> sint (contact_count m)"
  then have t: "uMsg m = WM_TOUCH" and mo: "max_slots i < contact_count m \<longrightarrow> malloc_ok env"
    and ok: "buf_ok i" and nn: "0 \<le> sint (contact_count m)"
    by simp_all
  from wndproc_returns [OF ok nn t mo] obtain p p' where
    "memset_zero (buf (grown i (contact_count m)))
             (unat (scast (max_slots (grown i (contact_count m))) :: size_t)) = Inr p"
    and "GetTouchInputInfo env (contact_count m) p = Inr (touch_ok env, p')"
    by blast
  with t mo have "tslibWndProc i env m =
         Inr ((grown i (contact_count m))\<lparr>buf := p'\<rparr>,
              if touch_ok env then CloseTouchInputHandle (lParam m)
              else CallWindowProc (prevWndProc i) (hwnd m) (uMsg m) (wParam m) (lParam m),
              if touch_ok env then 0 else prev_result env)"
    by (simp add: wndproc_touch forward_def)
  then show "\<exists>i'. tslibWndProc i env m =
         Inr (i',
              if touch_ok env then CloseTouchInputHandle (lParam m)
              else CallWindowProc (prevWndProc i) (hwnd m) (uMsg m) (wParam m) (lParam m),
              if touch_ok env then 0 else prev_result env)"
    by blast
qed

theorem message_forwarded_or_handled_witness:
  "uMsg paint_msg \<noteq> WM_TOUCH
   \<and> tslibWndProc blank_input scenario_platform paint_msg =
       Inr (blank_input, CallWindowProc (Host_WndProc 0) 1 0x000F 0 0, 77)
   \<and> uMsg ten_contact_msg = WM_TOUCH
   \<and> max_slots two_contact_input < contact_count ten_contact_msg
   \<and> \<not> malloc_ok out_of_memory
   \<and> tslibWndProc two_contact_input out_of_memory ten_contact_msg =
       Inr (two_contact_input\<lparr>buf := None\<rparr>,
            CallWindowProc (Host_WndProc 0) 1 WM_TOUCH 10 5, 77)
   \<and> uMsg three_contact_msg = WM_TOUCH
   \<and> malloc_ok scenario_platform \<and> malloc_ok unpack_fails
   \<and> buf_ok blank_input
   \<and> 0 \<le> sint (contact_count three_contact_msg)
   \<and> tslibWndProc blank_input scenario_platform three_contact_msg =
       Inr (scenario_input, CloseTouchInputHandle 5, 0)
   \<and> tslibWndProc blank_input unpack_fails three_contact_msg =
       Inr (blank_input\<lparr>buf := Some (replicate 3 zero_touch), max_slots := 3\<rparr>,
            CallWindowProc (Host_WndProc 0) 1 WM_TOUCH 3 5, 77)"
proof -
  have a: "uMsg paint_msg \<noteq> WM_TOUCH" by (simp add: paint_msg_def WM_TOUCH_def)
  have b: "uMsg ten_contact_msg = WM_TOUCH \<and>
      max_slots two_contact_input < contact_count ten_contact_msg \<and> \<not> malloc_ok out_of_memory"
    by (simp add: ten_contact_msg_def two_contact_input_def blank_input_def contact_count_def
        out_of_memory_def)
  have c: "uMsg three_contact_msg = WM_TOUCH \<and> malloc_ok scenario_platform \<and>
      malloc_ok unpack_fails \<and> buf_ok blank_input \<and> 0 \<le> sint (contact_count three_contact_msg)"
    by (simp add: three_contact_msg_def scenario_platform_def unpack_fails_def buf_ok_def
        blank_input_def contact_count_def)
  have t: "touch_ok scenario_platform \<and> \<not> touch_ok unpack_fails"
    by (simp add: scenario_platform_def unpack_fails_def)
  have e2: "tslibWndProc blank_input scenario_platform three_contact_msg =
       Inr (scenario_input, CloseTouchInputHandle 5, 0)"
    by (simp add: handler_eval three_contact_msg_def scenario_platform_def scenario_input_def
        scenario_batch_def)
  have e3: "tslibWndProc blank_input unpack_fails three_contact_msg =
       Inr (blank_input\<lparr>buf := Some (replicate 3 zero_touch), max_slots := 3\<rparr>,
            CallWindowProc (Host_WndProc 0) 1 WM_TOUCH 3 5, 77)"
    by (simp add: handler_eval three_contact_msg_def unpack_fails_def)
  have f: "hwnd paint_msg = 1 \<and> uMsg paint_msg = 0x000F \<and> wParam paint_msg = 0
      \<and> lParam paint_msg = 0 \<and> hwnd ten_contact_msg = 1 \<and> wParam ten_contact_msg = 10
      \<and> lParam ten_contact_msg = 5 \<and> prevWndProc blank_input = Host_WndProc 0
      \<and> prevWndProc two_contact_input = Host_WndProc 0
      \<and> prev_result scenario_platform = 77 \<and> prev_result out_of_memory = 77"
    by (simp add: paint_msg_def ten_contact_msg_def blank_input_def two_contact_input_def
        scenario_platform_def out_of_memory_def)
  from a message_forwarded_or_handled [of paint_msg blank_input scenario_platform,
      THEN conjunct1]
  have w1: "tslibWndProc blank_input scenario_platform paint_msg =
       Inr (blank_input, CallWindowProc (Host_WndProc 0) 1 0x000F 0 0, 77)"
    using f by simp
  from b message_forwarded_or_handled [of ten_contact_msg two_contact_input out_of_memory,
      THEN conjunct2, THEN conjunct1]
  have w2: "tslibWndProc two_contact_input out_of_memory ten_contact_msg =
       Inr (two_contact_input\<lparr>buf := None\<rparr>,
            CallWindowProc (Host_WndProc 0) 1 WM_TOUCH 10 5, 77)"
    using f by simp
  from c message_forwarded_or_handled [of three_contact_msg blank_input scenario_platform,
      THEN conjunct2, THEN conjunct2, THEN conjunct1]
  have w3: "\<exists>i'. tslibWndProc blank_input scenario_platform three_contact_msg =
       Inr (i', CloseTouchInputHandle (lParam three_contact_msg), 0)"
    using t by simp
  from e3 message_forwarded_or_handled [of three_contact_msg blank_input unpack_fails,
      THEN conjunct2, THEN conjunct2, THEN conjunct2]
  have w4: "(CallWindowProc (Host_WndProc 0) 1 WM_TOUCH 3 5, 77 :: 64 word) =
      (CallWindowProc (prevWndProc blank_input) (hwnd three_contact_msg)
         (uMsg three_contact_msg) (wParam three_contact_msg) (lParam three_contact_msg),
       prev_result unpack_fails)"
    using t c by simp
  from a b c e2 e3 w1 w2 show ?thesis by simp
qed

end
